theory Spec2Isabelle
  imports Complex_Main
begin

section \<open>The inverse-distance kernel of \<^verbatim>\<open>harmonica/equivalent_layer/harmonic.py\<close>\<close>

text \<open>
  The module computes with numpy \<^verbatim>\<open>float64\<close> values. The arrays and the loops over
  them are modelled with exact arithmetic: there a \<^verbatim>\<open>float64\<close> is a real number,
  arrays hold reals, and rounding, overflow, underflow and NaN are outside the model.
  The properties of the kernel itself, which depend on the rounding, are stated for the
  second embedding of the kernel, in \<^verbatim>\<open>float64\<close> arithmetic.
\<close>

datatype error =
    ValueError
  | IndexError
  | TypingError
  | AttributeError
  | ZeroDivisionError
  | DimensionMismatch
  | SingularSystem
  | NotFitted

text \<open>
  \<^verbatim>\<open>distance(east_1, north_1, vertical_1, east_2, north_2, vertical_2)\<close>: the square
  root of the sum of the three squared coordinate differences.
\<close>

definition distance :: "real \<Rightarrow> real \<Rightarrow> real \<Rightarrow> real \<Rightarrow> real \<Rightarrow> real \<Rightarrow> real" where
  "distance east_1 north_1 vertical_1 east_2 north_2 vertical_2 =
     sqrt ((east_1 - east_2)\<^sup>2 + (north_1 - north_2)\<^sup>2 + (vertical_1 - vertical_2)\<^sup>2)"

text \<open>
  \<^verbatim>\<open>greens_func\<close> returns \<^verbatim>\<open>1 / distance(...)\<close>. The function is compiled with
  \<^verbatim>\<open>@jit(nopython=True)\<close> and numba's default error model, under which a division by
  zero raises \<^verbatim>\<open>ZeroDivisionError\<close>.
\<close>

definition greens_func :: "real \<Rightarrow> real \<Rightarrow> real \<Rightarrow> real \<Rightarrow> real \<Rightarrow> real \<Rightarrow> error + real" where
  "greens_func east north vertical point_east point_north point_vertical =
     (let d = distance east north vertical point_east point_north point_vertical
      in if d = 0 then Inl ZeroDivisionError else Inr (1 / d))"

section \<open>The kernel in \<^verbatim>\<open>float64\<close> arithmetic\<close>

text \<open>
  Whether a distance is zero depends on the rounding, so the kernel is embedded a second
  time with the arithmetic of the machine. A \<^verbatim>\<open>float64\<close> is a finite real, an
  infinity or a NaN (IEEE 754 binary64; the sign of a zero is not modelled: the two zeros
  compare equal and dividing by either raises). An operation on finite values computes
  the exact result and rounds it to the nearest \<^verbatim>\<open>float64\<close>, ties to the even
  significand: \<open>ulp x\<close> is the spacing of the \<^verbatim>\<open>float64\<close> values around \<open>x\<close>
  (\<open>2\<^sup>-\<^sup>1\<^sup>0\<^sup>7\<^sup>4\<close> below \<open>2\<^sup>-\<^sup>1\<^sup>0\<^sup>2\<^sup>2\<close>, 53 significant bits above), and a result
  that rounds to \<open>2\<^sup>1\<^sup>0\<^sup>2\<^sup>4\<close> or more in magnitude is an infinity.
\<close>

datatype float64 = Finite real | PInf | NInf | NaN

definition round_half_even :: "real \<Rightarrow> int" where
  "round_half_even x =
     (let f = \<lfloor>x\<rfloor>
      in if x - of_int f < 1 / 2 then f
         else if 1 / 2 < x - of_int f then f + 1
         else if even f then f else f + 1)"

definition ulp :: "real \<Rightarrow> real" where
  "ulp x = (if \<bar>x\<bar> < 2 powi (- 1022) then 2 powi (- 1074) else 2 powi (\<lfloor>log 2 \<bar>x\<bar>\<rfloor> - 52))"

definition round64 :: "real \<Rightarrow> float64" where
  "round64 x =
     (let y = ulp x * of_int (round_half_even (x / ulp x))
      in if 2 ^ 1024 \<le> y then PInf else if y \<le> - (2 ^ 1024) then NInf else Finite y)"

text \<open>
  The operations that \<^verbatim>\<open>distance\<close> and \<^verbatim>\<open>greens_func\<close> use: \<^verbatim>\<open>a - b\<close>,
  \<^verbatim>\<open>a + b\<close>, \<^verbatim>\<open>a ** 2\<close> (compiled to the product \<^verbatim>\<open>a * a\<close>), \<^verbatim>\<open>np.sqrt(a)\<close> and
  \<^verbatim>\<open>a / b\<close>, which raises \<^verbatim>\<open>ZeroDivisionError\<close> for a zero divisor. \<open>fneg\<close> is
  the negation, used to state the symmetry of the subtraction.
\<close>

fun fneg :: "float64 \<Rightarrow> float64" where
  "fneg (Finite a) = Finite (- a)"
| "fneg PInf = NInf"
| "fneg NInf = PInf"
| "fneg NaN = NaN"

fun fsub :: "float64 \<Rightarrow> float64 \<Rightarrow> float64" where
  "fsub (Finite a) (Finite b) = round64 (a - b)"
| "fsub (Finite a) PInf = NInf"
| "fsub (Finite a) NInf = PInf"
| "fsub PInf (Finite b) = PInf"
| "fsub PInf NInf = PInf"
| "fsub NInf (Finite b) = NInf"
| "fsub NInf PInf = NInf"
| "fsub _ _ = NaN"

fun fadd :: "float64 \<Rightarrow> float64 \<Rightarrow> float64" where
  "fadd (Finite a) (Finite b) = round64 (a + b)"
| "fadd (Finite a) PInf = PInf"
| "fadd (Finite a) NInf = NInf"
| "fadd PInf (Finite b) = PInf"
| "fadd PInf PInf = PInf"
| "fadd NInf (Finite b) = NInf"
| "fadd NInf NInf = NInf"
| "fadd _ _ = NaN"

fun fsquare :: "float64 \<Rightarrow> float64" where
  "fsquare (Finite a) = round64 (a * a)"
| "fsquare PInf = PInf"
| "fsquare NInf = PInf"
| "fsquare NaN = NaN"

fun fsqrt :: "float64 \<Rightarrow> float64" where
  "fsqrt (Finite a) = (if a < 0 then NaN else round64 (sqrt a))"
| "fsqrt PInf = PInf"
| "fsqrt NInf = NaN"
| "fsqrt NaN = NaN"

fun fdiv :: "float64 \<Rightarrow> float64 \<Rightarrow> error + float64" where
  "fdiv x (Finite b) =
     (if b = 0 then Inl ZeroDivisionError
      else (case x of
              Finite a \<Rightarrow> Inr (round64 (a / b))
            | PInf \<Rightarrow> Inr (if 0 < b then PInf else NInf)
            | NInf \<Rightarrow> Inr (if 0 < b then NInf else PInf)
            | NaN \<Rightarrow> Inr NaN))"
| "fdiv (Finite a) PInf = Inr (Finite 0)"
| "fdiv (Finite a) NInf = Inr (Finite 0)"
| "fdiv _ _ = Inr NaN"

text \<open>The comparisons \<^verbatim>\<open>a <= b\<close> and \<^verbatim>\<open>a == b\<close>; both are false when an operand is a NaN.\<close>

fun fle :: "float64 \<Rightarrow> float64 \<Rightarrow> bool" where
  "fle NaN _ = False"
| "fle _ NaN = False"
| "fle NInf _ = True"
| "fle _ PInf = True"
| "fle (Finite a) (Finite b) = (a \<le> b)"
| "fle _ _ = False"

fun feq :: "float64 \<Rightarrow> float64 \<Rightarrow> bool" where
  "feq NaN _ = False"
| "feq _ NaN = False"
| "feq a b = (a = b)"

text \<open>
  \<^verbatim>\<open>distance\<close> and \<^verbatim>\<open>greens_func\<close> in \<^verbatim>\<open>float64\<close> arithmetic, operation by
  operation in the order of the source; the literal \<^verbatim>\<open>1\<close> is the \<^verbatim>\<open>float64\<close> one.
\<close>

definition distance_float64 :: "float64 \<Rightarrow> float64 \<Rightarrow> float64 \<Rightarrow> float64 \<Rightarrow> float64 \<Rightarrow> float64
    \<Rightarrow> float64" where
  "distance_float64 east_1 north_1 vertical_1 east_2 north_2 vertical_2 =
     fsqrt (fadd (fadd (fsquare (fsub east_1 east_2)) (fsquare (fsub north_1 north_2)))
                 (fsquare (fsub vertical_1 vertical_2)))"

definition greens_func_float64 :: "float64 \<Rightarrow> float64 \<Rightarrow> float64 \<Rightarrow> float64 \<Rightarrow> float64 \<Rightarrow> float64
    \<Rightarrow> error + float64" where
  "greens_func_float64 east north vertical point_east point_north point_vertical =
     fdiv (Finite 1) (distance_float64 east north vertical point_east point_north point_vertical)"

text \<open>A value that is not negative and not a NaN.\<close>

definition nonneg64 :: "float64 \<Rightarrow> bool" where
  "nonneg64 x \<longleftrightarrow> fle (Finite 0) x"

text \<open>The \<^verbatim>\<open>float64\<close> value \<open>2\<^sup>-\<^sup>6\<^sup>0\<^sup>0\<close>, about \<open>2.4e-181\<close>, for the examples.\<close>

definition tiny :: real where
  "tiny = 2 powi (- 600)"

section \<open>Arrays in a store\<close>

text \<open>
  A numpy array is a view on a buffer. The store is the list of all buffers, a buffer's
  address is its index, and an array names its buffer and carries its own shape. Two
  arrays with the same \<open>buf\<close> share their elements, as an array and the view that
  \<^verbatim>\<open>ravel()\<close> returns do. All arrays are C-contiguous and start at offset 0 of their
  buffer. The elements are reals (\<open>store\<close>) where the arithmetic is exact, and
  \<open>float64\<close> values where it is that of the machine; the access to the elements is
  the same for both.
\<close>

type_synonym 'a memory = "'a list list"

type_synonym store = "real memory"

type_synonym store64 = "float64 memory"

record ndarray =
  buf :: nat
  shape :: "nat list"

type_synonym coords = "ndarray \<times> ndarray \<times> ndarray"

definition size_arr :: "ndarray \<Rightarrow> nat" where
  "size_arr a = prod_list (shape a)"

text \<open>The elements of an array, in C order.\<close>

definition elems :: "'a memory \<Rightarrow> ndarray \<Rightarrow> 'a list" where
  "elems st a = st ! buf a"

text \<open>\<^verbatim>\<open>np.zeros(shape)\<close> and \<^verbatim>\<open>a.copy()\<close> allocate a new buffer at the end of the store.\<close>

definition np_zeros :: "nat list \<Rightarrow> store \<Rightarrow> ndarray \<times> store" where
  "np_zeros shp st = (\<lparr>buf = length st, shape = shp\<rparr>, st @ [replicate (prod_list shp) 0])"

text \<open>\<^verbatim>\<open>np.zeros(shape, dtype="float64")\<close> in a store of \<^verbatim>\<open>float64\<close> values.\<close>

definition np_zeros_float64 :: "nat list \<Rightarrow> store64 \<Rightarrow> ndarray \<times> store64" where
  "np_zeros_float64 shp st =
     (\<lparr>buf = length st, shape = shp\<rparr>, st @ [replicate (prod_list shp) (Finite 0)])"

definition copy :: "ndarray \<Rightarrow> store \<Rightarrow> ndarray \<times> store" where
  "copy a st = (\<lparr>buf = length st, shape = shape a\<rparr>, st @ [st ! buf a])"

text \<open>
  \<^verbatim>\<open>np.atleast_1d(a)\<close> and \<^verbatim>\<open>a.ravel()\<close> return views on the same buffer; so does
  \<^verbatim>\<open>a.reshape(shape)\<close>, which raises \<^verbatim>\<open>ValueError\<close> when the sizes differ.
\<close>

definition atleast_1d :: "ndarray \<Rightarrow> ndarray" where
  "atleast_1d a = (if shape a = [] then a\<lparr>shape := [1]\<rparr> else a)"

definition ravel :: "ndarray \<Rightarrow> ndarray" where
  "ravel a = a\<lparr>shape := [size_arr a]\<rparr>"

definition reshape :: "ndarray \<Rightarrow> nat list \<Rightarrow> error + ndarray" where
  "reshape a shp = (if prod_list shp = size_arr a then Inr (a\<lparr>shape := shp\<rparr>) else Inl ValueError)"

definition ravel3 :: "coords \<Rightarrow> coords" where
  "ravel3 c = (case c of (x, y, z) \<Rightarrow>
     (ravel (atleast_1d x), ravel (atleast_1d y), ravel (atleast_1d z)))"

text \<open>
  Element access inside the compiled functions. A negative index counts from the end.
  The compiled code does not check the bounds; the model stops with \<^verbatim>\<open>IndexError\<close>
  where the interpreter would. Indexing with one integer is typed as an element read only
  for a one-dimensional array, and with two integers only for a two-dimensional one.
\<close>

definition wrap_index :: "nat \<Rightarrow> int \<Rightarrow> error + nat" where
  "wrap_index n i =
     (let k = (if i < 0 then i + int n else i)
      in if 0 \<le> k \<and> k < int n then Inr (nat k) else Inl IndexError)"

definition getitem :: "'a memory \<Rightarrow> ndarray \<Rightarrow> int \<Rightarrow> error + 'a" where
  "getitem st a i =
     (case shape a of
        [n] \<Rightarrow> (case wrap_index n i of Inl e \<Rightarrow> Inl e | Inr k \<Rightarrow> Inr (st ! buf a ! k))
      | _ \<Rightarrow> Inl TypingError)"

definition setitem :: "ndarray \<Rightarrow> int \<Rightarrow> 'a \<Rightarrow> 'a memory \<Rightarrow> error option \<times> 'a memory" where
  "setitem a i x st =
     (case shape a of
        [n] \<Rightarrow> (case wrap_index n i of
                  Inl e \<Rightarrow> (Some e, st)
                | Inr k \<Rightarrow> (None, st[buf a := (st ! buf a)[k := x]]))
      | _ \<Rightarrow> (Some TypingError, st))"

definition setitem2 :: "ndarray \<Rightarrow> int \<times> int \<Rightarrow> 'a \<Rightarrow> 'a memory
    \<Rightarrow> error option \<times> 'a memory" where
  "setitem2 a ij x st =
     (case shape a of
        [r, c] \<Rightarrow> (case wrap_index r (fst ij) of
                    Inl e \<Rightarrow> (Some e, st)
                  | Inr i \<Rightarrow> (case wrap_index c (snd ij) of
                               Inl e \<Rightarrow> (Some e, st)
                             | Inr j \<Rightarrow> (None, st[buf a := (st ! buf a)[i * c + j := x]])))
      | _ \<Rightarrow> (Some TypingError, st))"

text \<open>Sequencing: the first error ends the computation.\<close>

definition bind_err :: "error + 'a \<Rightarrow> ('a \<Rightarrow> error + 'b) \<Rightarrow> error + 'b" where
  "bind_err r f = (case r of Inl e \<Rightarrow> Inl e | Inr x \<Rightarrow> f x)"

definition with_value :: "error + 'a \<Rightarrow> ('a \<Rightarrow> 's \<Rightarrow> error option \<times> 's)
    \<Rightarrow> 's \<Rightarrow> error option \<times> 's" where
  "with_value r f st = (case r of Inl e \<Rightarrow> (Some e, st) | Inr x \<Rightarrow> f x st)"

text \<open>\<^verbatim>\<open>for i in xs: body\<close>, where the body updates the store and may raise.\<close>

fun for_each :: "nat list \<Rightarrow> (nat \<Rightarrow> 's \<Rightarrow> error option \<times> 's) \<Rightarrow> 's
    \<Rightarrow> error option \<times> 's" where
  "for_each [] body st = (None, st)"
| "for_each (i # rest) body st =
     (case body i st of
        (Some e, st') \<Rightarrow> (Some e, st')
      | (None, st') \<Rightarrow> for_each rest body st')"

text \<open>The three coordinates of point \<open>i\<close>, read in the order east, north, vertical.\<close>

definition getitem3 :: "'a memory \<Rightarrow> coords \<Rightarrow> int \<Rightarrow> error + 'a \<times> 'a \<times> 'a" where
  "getitem3 st c i = (case c of (east, north, vertical) \<Rightarrow>
     bind_err (getitem st east i) (\<lambda>e.
     bind_err (getitem st north i) (\<lambda>n.
     bind_err (getitem st vertical i) (\<lambda>v. Inr (e, n, v)))))"

section \<open>The compiled loops\<close>

text \<open>
  \<^verbatim>\<open>greens_func(east[i], north[i], vertical[i], point_east[j], point_north[j],
  point_vertical[j])\<close>: the six reads, then the call.
\<close>

definition greens_at :: "store \<Rightarrow> coords \<Rightarrow> coords \<Rightarrow> nat \<Rightarrow> nat \<Rightarrow> error + real" where
  "greens_at st coordinates points i j =
     bind_err (getitem3 st coordinates (int i)) (\<lambda>(e, n, v).
     bind_err (getitem3 st points (int j)) (\<lambda>(pe, pn, pv).
     greens_func e n v pe pn pv))"

text \<open>\<^verbatim>\<open>jacobian_numba(coordinates, points, jac)\<close> fills \<^verbatim>\<open>jac[i, j]\<close>.\<close>

definition jacobian_numba :: "coords \<Rightarrow> coords \<Rightarrow> ndarray \<Rightarrow> store \<Rightarrow> error option \<times> store" where
  "jacobian_numba coordinates points jac =
     (case coordinates of (east, north, vertical) \<Rightarrow>
      case points of (point_east, point_north, point_vertical) \<Rightarrow>
        for_each [0..<size_arr east] (\<lambda>i.
          for_each [0..<size_arr point_east] (\<lambda>j st.
            with_value (greens_at st coordinates points i j)
              (setitem2 jac (int i, int j)) st)))"

text \<open>
  The same loop in \<^verbatim>\<open>float64\<close> arithmetic: the arrays hold \<^verbatim>\<open>float64\<close> values
  and the kernel is \<open>greens_func_float64\<close>.
\<close>

definition greens_at_float64 :: "store64 \<Rightarrow> coords \<Rightarrow> coords \<Rightarrow> nat \<Rightarrow> nat \<Rightarrow> error + float64" where
  "greens_at_float64 st coordinates points i j =
     bind_err (getitem3 st coordinates (int i)) (\<lambda>(e, n, v).
     bind_err (getitem3 st points (int j)) (\<lambda>(pe, pn, pv).
     greens_func_float64 e n v pe pn pv))"

definition jacobian_numba_float64 :: "coords \<Rightarrow> coords \<Rightarrow> ndarray \<Rightarrow> store64
    \<Rightarrow> error option \<times> store64" where
  "jacobian_numba_float64 coordinates points jac =
     (case coordinates of (east, north, vertical) \<Rightarrow>
      case points of (point_east, point_north, point_vertical) \<Rightarrow>
        for_each [0..<size_arr east] (\<lambda>i.
          for_each [0..<size_arr point_east] (\<lambda>j st.
            with_value (greens_at_float64 st coordinates points i j)
              (setitem2 jac (int i, int j)) st)))"

text \<open>
  \<^verbatim>\<open>predict_numba(coordinates, points, coeffs, result)\<close> adds
  \<^verbatim>\<open>coeffs[j] * greens_func(...)\<close> to \<^verbatim>\<open>result[i]\<close>.
\<close>

definition predict_numba :: "coords \<Rightarrow> coords \<Rightarrow> ndarray \<Rightarrow> ndarray \<Rightarrow> store
    \<Rightarrow> error option \<times> store" where
  "predict_numba coordinates points coeffs result =
     (case coordinates of (east, north, vertical) \<Rightarrow>
      case points of (point_east, point_north, point_vertical) \<Rightarrow>
        for_each [0..<size_arr east] (\<lambda>i.
          for_each [0..<size_arr point_east] (\<lambda>j st.
            with_value
              (bind_err (getitem st result (int i)) (\<lambda>r.
               bind_err (getitem st coeffs (int j)) (\<lambda>c.
               bind_err (greens_at st coordinates points i j) (\<lambda>g. Inr (r + c * g)))))
              (setitem result (int i)) st)))"

text \<open>
  \<^verbatim>\<open>distance_to_nearest_point(coordinates, distances)\<close>. The running minimum
  \<^verbatim>\<open>distances[i]\<close> starts as the distance from point \<open>i\<close> to point \<open>i - 1\<close>; for
  \<open>i = 0\<close> the index \<open>-1\<close> is the last point.
\<close>

definition distance_at :: "store \<Rightarrow> coords \<Rightarrow> int \<Rightarrow> int \<Rightarrow> error + real" where
  "distance_at st coordinates i j =
     bind_err (getitem3 st coordinates i) (\<lambda>(e1, n1, v1).
     bind_err (getitem3 st coordinates j) (\<lambda>(e2, n2, v2).
     Inr (distance e1 n1 v1 e2 n2 v2)))"

definition nearest_step :: "coords \<Rightarrow> ndarray \<Rightarrow> nat \<Rightarrow> nat \<Rightarrow> store \<Rightarrow> error option \<times> store" where
  "nearest_step coordinates distances i j st =
     (if i \<noteq> j then
        with_value (distance_at st coordinates (int i) (int j)) (\<lambda>dist st.
          with_value (getitem st distances (int i)) (\<lambda>cur st.
            if dist < cur then setitem distances (int i) dist st else (None, st)) st) st
      else (None, st))"

definition distance_to_nearest_point :: "coords \<Rightarrow> ndarray \<Rightarrow> store \<Rightarrow> error option \<times> store" where
  "distance_to_nearest_point coordinates distances =
     (case coordinates of (east, north, vertical) \<Rightarrow>
        for_each [0..<size_arr east] (\<lambda>i st.
          with_value (distance_at st coordinates (int i) (int i - 1)) (\<lambda>d0 st.
            case setitem distances (int i) d0 st of
              (Some e, st') \<Rightarrow> (Some e, st')
            | (None, st') \<Rightarrow>
                for_each [0..<size_arr east] (nearest_step coordinates distances i) st') st))"

section \<open>The collaborators outside the module\<close>

text \<open>
  Modelled from the spec: \<^verbatim>\<open>check_fit_input\<close> (imported from verde) validates that the
  coordinate, data and weight arrays have consistent shapes and hands the arrays back
  unchanged; inconsistent shapes are a \<open>DimensionMismatch\<close>.
\<close>

definition check_fit_input :: "coords \<Rightarrow> ndarray \<Rightarrow> ndarray option
    \<Rightarrow> error + coords \<times> ndarray \<times> ndarray option" where
  "check_fit_input coordinates data weights =
     (case coordinates of (east, north, vertical) \<Rightarrow>
        if shape east = shape data \<and> shape north = shape data \<and> shape vertical = shape data
           \<and> (case weights of None \<Rightarrow> True | Some w \<Rightarrow> shape w = shape data)
        then Inr (coordinates, data, weights)
        else Inl DimensionMismatch)"

text \<open>
  Modelled from the spec: \<^verbatim>\<open>get_region\<close> (imported from verde) returns the axis-aligned
  bounding box \<open>(W, E, S, N)\<close> of the easting and northing arrays. The minimum of an
  empty array is a \<^verbatim>\<open>ValueError\<close> in numpy.
\<close>

type_synonym region = "real \<times> real \<times> real \<times> real"

definition get_region :: "store \<Rightarrow> ndarray \<times> ndarray \<Rightarrow> error + region" where
  "get_region st en =
     (case en of (east, north) \<Rightarrow>
        let es = elems st east; ns = elems st north
        in if es = [] \<or> ns = [] then Inl ValueError
           else Inr (Min (set es), Max (set es), Min (set ns), Max (set ns)))"

text \<open>
  \<^verbatim>\<open>least_squares\<close> (imported from verde) is a parameter of the model: it receives the
  Jacobian (its shape and its elements in C order), the data, the weights and the
  damping, and returns the coefficients or an error.
\<close>

type_synonym solver =
  "nat list \<times> real list \<Rightarrow> real list \<Rightarrow> real list option \<Rightarrow> real option \<Rightarrow> error + real list"

text \<open>
  \<^verbatim>\<open>np.broadcast(a, b, c).shape\<close>: the shapes are aligned at their last dimension; two
  dimensions are compatible when they are equal or one of them is 1.
\<close>

fun broadcast_rev :: "nat list \<Rightarrow> nat list \<Rightarrow> error + nat list" where
  "broadcast_rev [] ys = Inr ys"
| "broadcast_rev (x # xs) [] = Inr (x # xs)"
| "broadcast_rev (x # xs) (y # ys) =
     (if x = y \<or> y = 1 then bind_err (broadcast_rev xs ys) (\<lambda>zs. Inr (x # zs))
      else if x = 1 then bind_err (broadcast_rev xs ys) (\<lambda>zs. Inr (y # zs))
      else Inl ValueError)"

definition broadcast_shapes :: "nat list \<Rightarrow> nat list \<Rightarrow> error + nat list" where
  "broadcast_shapes a b = bind_err (broadcast_rev (rev a) (rev b)) (\<lambda>zs. Inr (rev zs))"

definition np_broadcast_shape :: "coords \<Rightarrow> error + nat list" where
  "np_broadcast_shape c = (case c of (x, y, z) \<Rightarrow>
     bind_err (broadcast_shapes (shape x) (shape y)) (\<lambda>xy. broadcast_shapes xy (shape z)))"

section \<open>The class \<^verbatim>\<open>HarmonicEQL\<close>\<close>

text \<open>
  The attributes \<^verbatim>\<open>region_\<close>, \<^verbatim>\<open>points_\<close> and \<^verbatim>\<open>coefs_\<close> do not exist before
  \<^verbatim>\<open>fit\<close> assigns them; an absent attribute is \<open>None\<close>. They are named
  \<open>region_attr\<close>, \<open>points_attr\<close> and \<open>coefs_attr\<close> here.
\<close>

record HarmonicEQL =
  damping :: "real option"
  points :: "coords option"
  depth_factor :: real
  region_attr :: "region option"
  points_attr :: "coords option"
  coefs_attr :: "ndarray option"

definition init :: "real option \<Rightarrow> coords option \<Rightarrow> real \<Rightarrow> HarmonicEQL" where
  "init damping_arg points_arg depth_factor_arg =
     \<lparr>damping = damping_arg, points = points_arg, depth_factor = depth_factor_arg,
      region_attr = None, points_attr = None, coefs_attr = None\<rparr>"

text \<open>
  Modelled from the spec: \<^verbatim>\<open>check_is_fitted(self, ["coefs_"])\<close> (imported from
  scikit-learn) fails with \<open>NotFitted\<close> if no coefficients exist.
\<close>

definition check_is_fitted :: "HarmonicEQL \<Rightarrow> error + ndarray" where
  "check_is_fitted self = (case coefs_attr self of None \<Rightarrow> Inl NotFitted | Some c \<Rightarrow> Inr c)"

text \<open>
  \<^verbatim>\<open>jacobian(self, coordinates, points)\<close> with the default \<^verbatim>\<open>dtype\<close>: a new
  \<open>n_data \<times> n_points\<close> array of zeros, filled by \<^verbatim>\<open>jacobian_numba\<close>.
\<close>

definition jacobian :: "HarmonicEQL \<Rightarrow> coords \<Rightarrow> coords \<Rightarrow> store \<Rightarrow> (error + ndarray) \<times> store" where
  "jacobian self coordinates pts st =
     (let n_data = size_arr (fst coordinates);
          n_points = size_arr (fst pts);
          jac = fst (np_zeros [n_data, n_points] st);
          st1 = snd (np_zeros [n_data, n_points] st)
      in (case jacobian_numba coordinates pts jac st1 of
            (Some e, st2) \<Rightarrow> (Inl e, st2)
          | (None, st2) \<Rightarrow> (Inr jac, st2)))"

text \<open>The same method in \<^verbatim>\<open>float64\<close> arithmetic.\<close>

definition jacobian_float64 :: "HarmonicEQL \<Rightarrow> coords \<Rightarrow> coords \<Rightarrow> store64
    \<Rightarrow> (error + ndarray) \<times> store64" where
  "jacobian_float64 self coordinates pts st =
     (let n_data = size_arr (fst coordinates);
          n_points = size_arr (fst pts);
          jac = fst (np_zeros_float64 [n_data, n_points] st);
          st1 = snd (np_zeros_float64 [n_data, n_points] st)
      in (case jacobian_numba_float64 coordinates pts jac st1 of
            (Some e, st2) \<Rightarrow> (Inl e, st2)
          | (None, st2) \<Rightarrow> (Inr jac, st2)))"

text \<open>
  \<^verbatim>\<open>predict(self, coordinates)\<close>. The output has the broadcast shape of the three
  coordinate arrays; the arrays themselves are flattened, not broadcast.
\<close>

definition predict :: "HarmonicEQL \<Rightarrow> coords \<Rightarrow> store \<Rightarrow> (error + ndarray) \<times> store" where
  "predict self coordinates st =
     (case check_is_fitted self of
        Inl e \<Rightarrow> (Inl e, st)
      | Inr coefs \<Rightarrow>
         (case np_broadcast_shape coordinates of
            Inl e \<Rightarrow> (Inl e, st)
          | Inr shp \<Rightarrow>
             (let data = fst (np_zeros [prod_list shp] st);
                  st1 = snd (np_zeros [prod_list shp] st)
              in (case points_attr self of
                    None \<Rightarrow> (Inl AttributeError, st1)
                  | Some pts \<Rightarrow>
                     (case predict_numba (ravel3 coordinates) pts coefs data st1 of
                        (Some e, st2) \<Rightarrow> (Inl e, st2)
                      | (None, st2) \<Rightarrow> (reshape data shp, st2))))))"

text \<open>
  The default point sources of \<^verbatim>\<open>fit\<close> (the branch \<^verbatim>\<open>if self.points is None\<close>):
  the nearest distances go into a new array of zeros, the three flattened coordinate
  arrays are copied, and \<^verbatim>\<open>point_vertical -= self.depth_factor * nearest_distances\<close>
  updates the copy of the vertical coordinates in place. Both operands of the
  subtraction are one-dimensional of the same size.
\<close>

definition isub_scaled :: "ndarray \<Rightarrow> real \<Rightarrow> ndarray \<Rightarrow> store \<Rightarrow> store" where
  "isub_scaled a k b st =
     st[buf a := map2 (\<lambda>x d. x - k * d) (st ! buf a) (st ! buf b)]"

definition default_points :: "real \<Rightarrow> coords \<Rightarrow> store \<Rightarrow> (error + coords) \<times> store" where
  "default_points factor coordinates st =
     (let nearest_distances = fst (np_zeros [size_arr (fst coordinates)] st);
          st1 = snd (np_zeros [size_arr (fst coordinates)] st)
      in (case distance_to_nearest_point coordinates nearest_distances st1 of
            (Some e, st2) \<Rightarrow> (Inl e, st2)
          | (None, st2) \<Rightarrow>
             (let point_east = fst (copy (ravel (atleast_1d (fst coordinates))) st2);
                  st3 = snd (copy (ravel (atleast_1d (fst coordinates))) st2);
                  point_north = fst (copy (ravel (atleast_1d (fst (snd coordinates)))) st3);
                  st4 = snd (copy (ravel (atleast_1d (fst (snd coordinates)))) st3);
                  point_vertical = fst (copy (ravel (atleast_1d (snd (snd coordinates)))) st4);
                  st5 = snd (copy (ravel (atleast_1d (snd (snd coordinates)))) st4)
              in (Inr (point_east, point_north, point_vertical),
                  isub_scaled point_vertical factor nearest_distances st5))))"

text \<open>
  \<^verbatim>\<open>fit(self, coordinates, data, weights)\<close>. Each attribute is assigned where the source
  assigns it, so an exception raised later leaves the earlier assignments in place. The
  result is the exception (if any), the object and the store. \<open>fit_points\<close> is the
  choice of the point sources and \<open>fit_solve\<close> the last assignment,
  \<^verbatim>\<open>self.coefs_ = least_squares(jacobian, data, weights, self.damping)\<close>, whose result
  is a new array.
\<close>

definition fit_points :: "HarmonicEQL \<Rightarrow> coords \<Rightarrow> store \<Rightarrow> (error + coords) \<times> store" where
  "fit_points self coordinates st =
     (case points self of
        None \<Rightarrow> default_points (depth_factor self) coordinates st
      | Some pts \<Rightarrow> (Inr (ravel3 pts), st))"

definition fit_solve :: "solver \<Rightarrow> HarmonicEQL \<Rightarrow> ndarray \<Rightarrow> ndarray \<Rightarrow> ndarray option \<Rightarrow> store
    \<Rightarrow> error option \<times> HarmonicEQL \<times> store" where
  "fit_solve least_squares self jac data weights st =
     (case least_squares (shape jac, elems st jac) (elems st data)
             (map_option (elems st) weights) (damping self) of
        Inl e \<Rightarrow> (Some e, self, st)
      | Inr cs \<Rightarrow>
         (None, self\<lparr>coefs_attr := Some \<lparr>buf = length st, shape = [length cs]\<rparr>\<rparr>, st @ [cs]))"

definition fit :: "solver \<Rightarrow> HarmonicEQL \<Rightarrow> coords \<Rightarrow> ndarray \<Rightarrow> ndarray option \<Rightarrow> store
    \<Rightarrow> error option \<times> HarmonicEQL \<times> store" where
  "fit least_squares self coordinates data weights st =
     (case check_fit_input coordinates data weights of
        Inl e \<Rightarrow> (Some e, self, st)
      | Inr checked \<Rightarrow>
         (case get_region st (fst (fst checked), fst (snd (fst checked))) of
            Inl e \<Rightarrow> (Some e, self, st)
          | Inr region \<Rightarrow>
             (let self1 = self\<lparr>region_attr := Some region\<rparr>;
                  coordinates1 = ravel3 (fst checked)
              in (case fit_points self1 coordinates1 st of
                    (Inl e, st1) \<Rightarrow> (Some e, self1, st1)
                  | (Inr pts, st1) \<Rightarrow>
                     (let self2 = self1\<lparr>points_attr := Some pts\<rparr>
                      in (case jacobian self2 coordinates1 pts st1 of
                            (Inl e, st2) \<Rightarrow> (Some e, self2, st2)
                          | (Inr jac, st2) \<Rightarrow>
                             fit_solve least_squares self2 jac (fst (snd checked))
                               (snd (snd checked)) st2))))))"

section \<open>Well-formed inputs\<close>

text \<open>
  An array is in the store when its buffer is allocated and holds as many elements as
  the shape says. A coordinate triple of \<open>n\<close> points is three one-dimensional arrays
  of size \<open>n\<close>; \<open>point_at\<close> is its \<open>i\<close>-th point and \<open>dist3\<close> the distance of two
  points.
\<close>

definition array_in :: "'a memory \<Rightarrow> ndarray \<Rightarrow> bool" where
  "array_in st a \<longleftrightarrow> buf a < length st \<and> length (st ! buf a) = size_arr a"

definition vectors_in :: "'a memory \<Rightarrow> coords \<Rightarrow> nat \<Rightarrow> bool" where
  "vectors_in st c n \<longleftrightarrow> (case c of (x, y, z) \<Rightarrow>
     array_in st x \<and> shape x = [n] \<and> array_in st y \<and> shape y = [n] \<and> array_in st z \<and> shape z = [n])"

definition point_at :: "'a memory \<Rightarrow> coords \<Rightarrow> nat \<Rightarrow> 'a \<times> 'a \<times> 'a" where
  "point_at st c i = (case c of (x, y, z) \<Rightarrow> (elems st x ! i, elems st y ! i, elems st z ! i))"


text \<open>
  The distance of two points in \<^verbatim>\<open>float64\<close> arithmetic. No data point coincides
  with a point source, as the kernel sees it, when the distance that \<^verbatim>\<open>distance\<close>
  computes for each pair is not zero: this is the test that \<^verbatim>\<open>greens_func\<close> makes
  when it divides.
\<close>

definition dist3_float64 :: "float64 \<times> float64 \<times> float64 \<Rightarrow> float64 \<times> float64 \<times> float64
    \<Rightarrow> float64" where
  "dist3_float64 p q =
     (case p of (e1, n1, v1) \<Rightarrow> case q of (e2, n2, v2) \<Rightarrow> distance_float64 e1 n1 v1 e2 n2 v2)"

definition apart_float64 :: "store64 \<Rightarrow> coords \<Rightarrow> nat \<Rightarrow> coords \<Rightarrow> nat \<Rightarrow> bool" where
  "apart_float64 st c nd p np \<longleftrightarrow>
     (\<forall>i\<in>{..<nd}. \<forall>j\<in>{..<np}. dist3_float64 (point_at st c i) (point_at st p j) \<noteq> Finite 0)"

text \<open>A one-dimensional array of size \<open>n\<close> on buffer \<open>b\<close>, for the examples.\<close>

definition vec :: "nat \<Rightarrow> nat \<Rightarrow> ndarray" where
  "vec b n = \<lparr>buf = b, shape = [n]\<rparr>"

text \<open>
  An instance on which no fit has succeeded: it comes from \<^verbatim>\<open>__init__\<close>, and every
  \<^verbatim>\<open>fit\<close> called on it so far has raised.
\<close>

inductive never_fitted :: "HarmonicEQL \<Rightarrow> bool" where
  fresh: "never_fitted (init d p k)"
| failed: "never_fitted self \<Longrightarrow> fit ls self c dat w st = (Some e, self', st') \<Longrightarrow> never_fitted self'"

text \<open>The exceptions that the compiled loops can raise.\<close>

definition numba_error :: "error \<Rightarrow> bool" where
  "numba_error e \<longleftrightarrow> e = IndexError \<or> e = TypingError \<or> e = ZeroDivisionError"

text \<open>
  The examples: two lines of two observation points each, \<open>(0,0,0), (3,0,0)\<close> and
  \<open>(0,0,0), (0,8,0)\<close>, one point source at \<open>(0,4,0)\<close> and two data values, in
  buffers 0 to 9 of the store. \<open>fitted_a\<close> and \<open>survey_a\<close> are the object and the store
  after a fit of the first line with a solver that returns the coefficient 1.
\<close>

definition survey :: store where
  "survey = [[0, 3], [0, 0], [0, 0], [0, 0], [0, 8], [0, 0], [0], [4], [0], [1, 2]]"

definition line_a :: coords where "line_a = (vec 0 2, vec 1 2, vec 2 2)"

definition line_b :: coords where "line_b = (vec 3 2, vec 4 2, vec 5 2)"

definition source :: coords where "source = (vec 6 1, vec 7 1, vec 8 1)"

definition fitted_a :: HarmonicEQL where
  "fitted_a = \<lparr>damping = None, points = Some source, depth_factor = 3,
     region_attr = Some (0, 3, 0, 0), points_attr = Some source, coefs_attr = Some (vec 11 1)\<rparr>"

definition survey_a :: store where
  "survey_a = survey @ [[1 / 4, 1 / 5], [1]]"

text \<open>
  \<open>kept n st st'\<close>: the store has as many buffers as before and its first \<open>n\<close>
  buffers are unchanged. \<open>extends st st'\<close>: every buffer of \<open>st\<close> is in \<open>st'\<close>,
  unchanged.
\<close>

definition kept :: "nat \<Rightarrow> store \<Rightarrow> store \<Rightarrow> bool" where
  "kept n st st' \<longleftrightarrow> length st' = length st \<and> take n st' = take n st"

definition extends :: "store \<Rightarrow> store \<Rightarrow> bool" where
  "extends st st' \<longleftrightarrow> length st \<le> length st' \<and> take (length st) st' = st"

text \<open>
  A second example: the observation points \<open>(0,0,0)\<close> and \<open>(4,0,0)\<close> with two data
  values, fitted with the default point sources and \<^verbatim>\<open>depth_factor = 0.75\<close>.
\<close>

definition pair_store :: store where
  "pair_store = [[0, 4], [0, 0], [0, 0], [1, 2]]"

definition pair :: coords where "pair = (vec 0 2, vec 1 2, vec 2 2)"

definition fitted_pair :: HarmonicEQL where
  "fitted_pair = \<lparr>damping = None, points = None, depth_factor = 3 / 4,
     region_attr = Some (0, 4, 0, 0), points_attr = Some (vec 5 2, vec 6 2, vec 7 2),
     coefs_attr = Some (vec 9 2)\<rparr>"

definition pair_store_fitted :: store where
  "pair_store_fitted = pair_store @
     [[4, 4], [0, 4], [0, 0], [- 3, - 3], [1 / 3, 1 / 5, 1 / 5, 1 / 3], [1, 1]]"





text \<open>A third example: the single observation point \<open>(2,5,7)\<close> with one data value.\<close>

definition single_store :: store where
  "single_store = [[2], [5], [7], [1]]"

definition lone :: coords where "lone = (vec 0 1, vec 1 1, vec 2 1)"

text \<open>
  Two examples in \<^verbatim>\<open>float64\<close> values: the data point \<open>(2\<^sup>-\<^sup>6\<^sup>0\<^sup>0, 0, 0)\<close> with
  the source \<open>(0, 0, 0)\<close>, and the data points \<open>(0,0,0), (3,0,0)\<close> with the source
  \<open>(0,4,0)\<close>.
\<close>

definition close_pair :: store64 where
  "close_pair = [[Finite tiny], [Finite 0], [Finite 0], [Finite 0], [Finite 0], [Finite 0]]"

definition line64 :: store64 where
  "line64 = [[Finite 0, Finite 3], [Finite 0, Finite 0], [Finite 0, Finite 0],
             [Finite 0], [Finite 4], [Finite 0]]"

section \<open>Properties of the kernel\<close>

lemma ulp_pos: "0 < ulp x"
  by (simp add: ulp_def)

lemma ulp_minus: "ulp (- x) = ulp x"
  by (simp add: ulp_def)

lemma round_half_even_of_int: "round_half_even (of_int k) = k"
  by (simp add: round_half_even_def)

lemma round_half_even_0: "round_half_even 0 = 0"
  using round_half_even_of_int [of 0] by simp

lemma round_half_even_nonneg: "0 \<le> x \<Longrightarrow> 0 \<le> round_half_even x"
  by (simp add: round_half_even_def Let_def)

lemma round_half_even_minus: "round_half_even (- x) = - round_half_even x"
proof (cases "x \<in> \<int>")
  case True
  then obtain k where "x = of_int k" by (auto elim: Ints_cases)
  then show ?thesis
    using round_half_even_of_int [of k] round_half_even_of_int [of "- k"] by simp
next
  case False
  have ne: "x \<noteq> of_int \<lfloor>x\<rfloor>"
  proof
    assume "x = of_int \<lfloor>x\<rfloor>"
    then have "x \<in> \<int>" by (metis Ints_of_int)
    with False show False by simp
  qed
  then have fl: "\<lfloor>- x\<rfloor> = - \<lfloor>x\<rfloor> - 1"
    by (simp add: floor_minus ceiling_altdef)
  from ne have nz: "x - of_int \<lfloor>x\<rfloor> \<noteq> 0"
    by simp
  show ?thesis
    unfolding round_half_even_def Let_def fl
    using nz by (auto simp add: algebra_simps)
qed

lemma round64_0: "round64 0 = Finite 0"
  by (simp add: round64_def round_half_even_0)

lemma round64_minus: "round64 (- x) = fneg (round64 x)"
  by (auto simp add: round64_def Let_def ulp_minus round_half_even_minus)

lemma nonneg64_cases: "nonneg64 x \<longleftrightarrow> x = PInf \<or> (\<exists>a. x = Finite a \<and> 0 \<le> a)"
  by (cases x) (simp_all add: nonneg64_def)

lemma round64_nonneg: "0 \<le> x \<Longrightarrow> nonneg64 (round64 x)"
proof -
  assume "0 \<le> x"
  then have "0 \<le> x / ulp x" using ulp_pos [of x] by simp
  then have "0 \<le> round_half_even (x / ulp x)" by (rule round_half_even_nonneg)
  then have "0 \<le> ulp x * of_int (round_half_even (x / ulp x))"
    using ulp_pos [of x] by simp
  then show ?thesis
    by (simp add: round64_def Let_def nonneg64_cases)
qed

lemma round64_not_NaN: "round64 x \<noteq> NaN"
  by (simp add: round64_def Let_def)

lemma fsub_fneg: "fsub x y = fneg (fsub y x)"
proof (cases x)
  case (Finite a)
  then show ?thesis
  proof (cases y)
    case (Finite b)
    have "round64 (a - b) = round64 (- (b - a))" by simp
    also have "\<dots> = fneg (round64 (b - a))" by (rule round64_minus)
    finally show ?thesis using \<open>x = Finite a\<close> Finite by simp
  qed simp_all
qed (cases y; simp)+

lemma fsquare_fneg: "fsquare (fneg x) = fsquare x"
  by (cases x) simp_all

lemma fsquare_nonneg: "x \<noteq> NaN \<Longrightarrow> nonneg64 (fsquare x)"
  by (cases x) (simp_all add: round64_nonneg, simp_all add: nonneg64_def)

lemma fsub_finite: "fsub (Finite a) (Finite b) \<noteq> NaN"
  by (simp add: round64_not_NaN)

lemma fadd_nonneg: "nonneg64 x \<Longrightarrow> nonneg64 y \<Longrightarrow> nonneg64 (fadd x y)"
  by (cases x; cases y) (simp_all add: nonneg64_def round64_nonneg [unfolded nonneg64_def])

lemma fsqrt_nonneg: "nonneg64 x \<Longrightarrow> nonneg64 (fsqrt x)"
  by (cases x) (simp_all add: nonneg64_def round64_nonneg [unfolded nonneg64_def])

lemma distance_float64_commute:
  "distance_float64 e1 n1 v1 e2 n2 v2 = distance_float64 e2 n2 v2 e1 n1 v1"
proof -
  have "fsquare (fsub a b) = fsquare (fsub b a)" for a b
    using fsub_fneg [of a b] by (simp add: fsquare_fneg)
  then show ?thesis by (simp add: distance_float64_def)
qed

lemma distance_float64_nonneg:
  "nonneg64 (distance_float64 (Finite e1) (Finite n1) (Finite v1) (Finite e2) (Finite n2) (Finite v2))"
  unfolding distance_float64_def
  by (intro fsqrt_nonneg fadd_nonneg fsquare_nonneg fsub_finite)


lemma round64_representable:
  assumes "x / ulp x = of_int m" and "\<bar>x\<bar> < 2 ^ 1024"
  shows "round64 x = Finite x"
proof -
  have "ulp x * of_int (round_half_even (x / ulp x)) = ulp x * (x / ulp x)"
    by (simp add: assms(1) round_half_even_of_int)
  also have "\<dots> = x" using ulp_pos [of x] by simp
  finally have y: "ulp x * of_int (round_half_even (x / ulp x)) = x" .
  from assms(2) have "\<not> 2 ^ 1024 \<le> x" "\<not> x \<le> - (2 ^ 1024)"
    by linarith+
  then show ?thesis
    unfolding round64_def Let_def y by simp
qed

lemma ulp_power2: "- 1022 \<le> k \<Longrightarrow> ulp (2 powi k) = 2 powi (k - 52)"
proof -
  assume k: "- 1022 \<le> k"
  have "(2::real) powi (- 1022) \<le> 2 powi k"
    using k by (intro power_int_increasing) simp_all
  moreover have "log 2 (2 powi k) = k"
    by (simp flip: powr_real_of_int')
  ultimately show ?thesis by (simp add: ulp_def)
qed

lemma round64_power2:
  assumes "- 1022 \<le> k" "k < 1024"
  shows "round64 (2 powi k) = Finite (2 powi k)"
proof -
  have "(2::real) powi k / 2 powi (k - 52) = 2 powi 52"
    by (simp add: power_int_diff)
  also have "\<dots> = of_int (2 ^ 52)" by simp
  finally have q: "2 powi k / ulp (2 powi k) = of_int (2 ^ 52)"
    by (simp add: ulp_power2 assms(1))
  have "(2::real) powi k < 2 powi 1024"
    using assms(2) by (intro power_int_strict_increasing) simp_all
  then have "\<bar>(2::real) powi k\<bar> < 2 ^ 1024" by simp
  with q show ?thesis by (rule round64_representable)
qed

lemma round64_tiny:
  assumes "\<bar>x\<bar> < 2 powi (- 1075)"
  shows "round64 x = Finite 0"
proof -
  have lt: "(2::real) powi (- 1075) < 2 powi (- 1022)"
    by (intro power_int_strict_increasing) simp_all
  with assms have u: "ulp x = 2 powi (- 1074)" by (simp add: ulp_def)
  have "\<bar>x / 2 powi (- 1074)\<bar> = \<bar>x\<bar> * 2 powi 1074"
    by (simp add: power_int_minus abs_mult field_simps)
  also have "\<dots> < 2 powi (- 1075) * 2 powi 1074"
    using assms by (intro mult_strict_right_mono) simp_all
  also have "\<dots> = 1 / 2"
    by (simp flip: power_int_add)
  finally have "\<bar>x / ulp x\<bar> < 1 / 2" by (simp add: u)
  define t where "t = x / ulp x"
  from \<open>\<bar>x / ulp x\<bar> < 1 / 2\<close> have small: "- (1 / 2) < t" "t < 1 / 2"
    unfolding t_def by linarith+
  have "round_half_even t = 0"
  proof (cases "0 \<le> t")
    case True
    with small have "\<lfloor>t\<rfloor> = 0" by (intro floor_unique) simp_all
    with small True show ?thesis by (simp add: round_half_even_def Let_def)
  next
    case False
    with small have "\<lfloor>t\<rfloor> = - 1" by (intro floor_unique) simp_all
    with small False show ?thesis by (simp add: round_half_even_def Let_def)
  qed
  then show ?thesis by (simp add: round64_def Let_def t_def)
qed

lemma round64_of_int:
  assumes "\<bar>k\<bar> < 2 ^ 53"
  shows "round64 (of_int k) = Finite (of_int k)"
proof (cases "k = 0")
  case True
  then show ?thesis by (simp add: round64_0)
next
  case False
  define e where "e = \<lfloor>log 2 \<bar>real_of_int k\<bar>\<rfloor>"
  have ak: "\<bar>real_of_int k\<bar> = of_int \<bar>k\<bar>" by simp
  from False have "1 \<le> \<bar>k\<bar>" by simp
  then have one: "1 \<le> \<bar>real_of_int k\<bar>"
    unfolding ak by (simp only: of_int_1_le_iff)
  from assms have "\<bar>real_of_int k\<bar> < 2 ^ 53"
    unfolding ak by (simp only: of_int_less_numeral_power_cancel_iff)
  then have lt: "\<bar>real_of_int k\<bar> < 2 powr 53"
    by simp
  have "0 \<le> log 2 \<bar>real_of_int k\<bar>" using one by simp
  then have e0: "0 \<le> e" by (simp add: e_def)
  have "log 2 \<bar>real_of_int k\<bar> < 53"
    using one lt by (simp add: log_less_iff)
  then have e52: "e \<le> 52" unfolding e_def by linarith
  have "(2::real) powi (- 1022) \<le> 2 powi 0"
    by (intro power_int_increasing) simp_all
  with one have "\<not> \<bar>real_of_int k\<bar> < 2 powi (- 1022)" by simp
  then have u: "ulp (of_int k) = 2 powi (e - 52)" by (simp add: ulp_def e_def)
  have "real_of_int k / 2 powi (e - 52) = of_int k * 2 powi (52 - e)"
    by (simp add: power_int_diff)
  also have "\<dots> = of_int k * 2 ^ nat (52 - e)"
    using e52 by (simp add: power_int_def)
  also have "\<dots> = of_int (k * 2 ^ nat (52 - e))" by simp
  finally have q: "real_of_int k / ulp (of_int k) = of_int (k * 2 ^ nat (52 - e))"
    by (simp add: u)
  have "(2::real) ^ 53 < 2 ^ 1024" by simp
  with \<open>\<bar>real_of_int k\<bar> < 2 ^ 53\<close> have "\<bar>real_of_int k\<bar> < 2 ^ 1024" by linarith
  with q show ?thesis by (rule round64_representable)
qed


lemma round64_numeral:
  "(numeral n :: int) < 2 ^ 53 \<Longrightarrow> round64 (numeral n) = Finite (numeral n)"
  using round64_of_int [of "numeral n"] by simp

lemma round64_neg_numeral:
  "(numeral n :: int) < 2 ^ 53 \<Longrightarrow> round64 (- numeral n) = Finite (- numeral n)"
  using round64_of_int [of "- numeral n"] by simp

lemma distance_float64_3_4:
  "distance_float64 (Finite 0) (Finite 0) (Finite 0) (Finite 3) (Finite 4) (Finite 0) = Finite 5"
proof -
  have "sqrt 25 = sqrt (5\<^sup>2)" by simp
  then have s: "sqrt 25 = 5" by (simp only: real_sqrt_abs abs_numeral)
  show ?thesis
    by (simp add: distance_float64_def round64_0 round64_numeral round64_neg_numeral s)
qed

lemma round64_tiny_value: "round64 tiny = Finite tiny"
  unfolding tiny_def by (rule round64_power2) simp_all

lemma tiny_nonzero: "tiny \<noteq> 0"
  by (simp add: tiny_def)

lemma round64_tiny_square: "round64 (tiny * tiny) = Finite 0"
proof -
  have "tiny * tiny = 2 powi (- 600 + - 600)"
    unfolding tiny_def by (rule power_int_add [symmetric]) simp
  then have "tiny * tiny = 2 powi (- 1200)" by simp
  moreover have "(2::real) powi (- 1200) < 2 powi (- 1075)"
    by (intro power_int_strict_increasing) simp_all
  moreover have "(0::real) \<le> 2 powi (- 1200)" by simp
  ultimately have "\<bar>tiny * tiny\<bar> < 2 powi (- 1075)" by (simp only: abs_of_nonneg)
  then show ?thesis by (rule round64_tiny)
qed

lemma distance_float64_underflow:
  "distance_float64 (Finite tiny) (Finite 0) (Finite 0) (Finite 0) (Finite 0) (Finite 0) = Finite 0"
  by (simp add: distance_float64_def round64_tiny_value round64_tiny_square round64_0)




text \<open>
  Claim C9, amended. For all points P and Q with finite coordinates the two calls
  \<^verbatim>\<open>greens_func(P, Q)\<close> and \<^verbatim>\<open>greens_func(Q, P)\<close> have the same outcome, which is
  \<^verbatim>\<open>1 / distance(P, Q)\<close>. When the computed distance is not zero, both return the same
  number (not a NaN, so they compare equal); when it is zero, both raise
  \<^verbatim>\<open>ZeroDivisionError\<close>.
\<close>

theorem greens_func_float64_symmetric:
  "greens_func_float64 (Finite e1) (Finite n1) (Finite v1) (Finite e2) (Finite n2) (Finite v2)
     = greens_func_float64 (Finite e2) (Finite n2) (Finite v2) (Finite e1) (Finite n1) (Finite v1)
   \<and> greens_func_float64 (Finite e1) (Finite n1) (Finite v1) (Finite e2) (Finite n2) (Finite v2)
     = fdiv (Finite 1)
         (distance_float64 (Finite e1) (Finite n1) (Finite v1) (Finite e2) (Finite n2) (Finite v2))
   \<and> (distance_float64 (Finite e1) (Finite n1) (Finite v1) (Finite e2) (Finite n2) (Finite v2)
        \<noteq> Finite 0 \<longrightarrow>
      (\<exists>g. greens_func_float64 (Finite e1) (Finite n1) (Finite v1)
              (Finite e2) (Finite n2) (Finite v2) = Inr g
          \<and> greens_func_float64 (Finite e2) (Finite n2) (Finite v2)
              (Finite e1) (Finite n1) (Finite v1) = Inr g
          \<and> feq g g))
   \<and> (distance_float64 (Finite e1) (Finite n1) (Finite v1) (Finite e2) (Finite n2) (Finite v2)
        = Finite 0 \<longrightarrow>
      greens_func_float64 (Finite e1) (Finite n1) (Finite v1) (Finite e2) (Finite n2) (Finite v2)
        = Inl ZeroDivisionError
      \<and> greens_func_float64 (Finite e2) (Finite n2) (Finite v2) (Finite e1) (Finite n1) (Finite v1)
        = Inl ZeroDivisionError)"
proof -
  let ?d = "distance_float64 (Finite e1) (Finite n1) (Finite v1) (Finite e2) (Finite n2) (Finite v2)"
  let ?g = "greens_func_float64 (Finite e1) (Finite n1) (Finite v1) (Finite e2) (Finite n2) (Finite v2)"
  let ?g' = "greens_func_float64 (Finite e2) (Finite n2) (Finite v2) (Finite e1) (Finite n1) (Finite v1)"
  have sym: "?g = ?g'"
    using distance_float64_commute [of "Finite e1" "Finite n1" "Finite v1"
        "Finite e2" "Finite n2" "Finite v2"]
    by (simp add: greens_func_float64_def)
  have def: "?g = fdiv (Finite 1) ?d"
    by (simp add: greens_func_float64_def)
  have nn: "nonneg64 ?d" by (rule distance_float64_nonneg)
  have val: "\<exists>g. ?g = Inr g \<and> ?g' = Inr g \<and> feq g g" if "?d \<noteq> Finite 0"
  proof (cases ?d)
    case (Finite a)
    with that have "a \<noteq> 0" by simp
    with Finite have "?g = Inr (round64 (1 / a))" by (simp add: def)
    moreover have "feq (round64 (1 / a)) (round64 (1 / a))"
      using round64_not_NaN [of "1 / a"] by (cases "round64 (1 / a)") simp_all
    ultimately show ?thesis using sym by simp
  next
    case PInf
    then have "?g = Inr (Finite 0)" by (simp add: def)
    then show ?thesis using sym by simp
  next
    case NInf
    with nn show ?thesis by (simp add: nonneg64_def)
  next
    case NaN
    with nn show ?thesis by (simp add: nonneg64_def)
  qed
  have zero: "?g = Inl ZeroDivisionError \<and> ?g' = Inl ZeroDivisionError" if "?d = Finite 0"
    using that sym by (simp add: def)
  show ?thesis
  proof (intro conjI impI)
    show "?g = ?g'" by (rule sym)
    show "?g = fdiv (Finite 1) ?d" by (rule def)
    show "\<exists>g. ?g = Inr g \<and> ?g' = Inr g \<and> feq g g" if "?d \<noteq> Finite 0"
      using that by (rule val)
    show "?g = Inl ZeroDivisionError" if "?d = Finite 0"
      using zero [OF that] by (rule conjunct1)
    show "?g' = Inl ZeroDivisionError" if "?d = Finite 0"
      using zero [OF that] by (rule conjunct2)
  qed
qed

theorem greens_func_float64_symmetric_witness:
  "distance_float64 (Finite 0) (Finite 0) (Finite 0) (Finite 3) (Finite 4) (Finite 0) \<noteq> Finite 0
   \<and> greens_func_float64 (Finite 0) (Finite 0) (Finite 0) (Finite 3) (Finite 4) (Finite 0)
       = Inr (round64 (1 / 5))
   \<and> greens_func_float64 (Finite 3) (Finite 4) (Finite 0) (Finite 0) (Finite 0) (Finite 0)
       = Inr (round64 (1 / 5))
   \<and> feq (round64 (1 / 5)) (round64 (1 / 5))"
proof -
  have h: "distance_float64 (Finite 0) (Finite 0) (Finite 0) (Finite 3) (Finite 4) (Finite 0)
      \<noteq> Finite 0"
    by (simp add: distance_float64_3_4)
  have g: "greens_func_float64 (Finite 0) (Finite 0) (Finite 0) (Finite 3) (Finite 4) (Finite 0)
      = Inr (round64 (1 / 5))"
    by (simp add: greens_func_float64_def distance_float64_3_4)
  from greens_func_float64_symmetric [of 0 0 0 3 4 0] h
  obtain v where v: "greens_func_float64 (Finite 0) (Finite 0) (Finite 0) (Finite 3) (Finite 4) (Finite 0)
        = Inr v"
      "greens_func_float64 (Finite 3) (Finite 4) (Finite 0) (Finite 0) (Finite 0) (Finite 0) = Inr v"
      "feq v v"
    by blast
  from v(1) g have "v = round64 (1 / 5)" by (simp only: sum.inject)
  with v h show ?thesis by (simp only: simp_thms)
qed

text \<open>
  Claim C9 as stated fails: for the distinct points \<open>(2\<^sup>-\<^sup>6\<^sup>0\<^sup>0, 0, 0)\<close> and
  \<open>(0, 0, 0)\<close> the computed distance is zero, and \<^verbatim>\<open>greens_func\<close> raises
  \<^verbatim>\<open>ZeroDivisionError\<close> instead of returning a number.
\<close>

theorem greens_func_float64_counterexample:
  "(2::real) powi (- 600) \<noteq> 0
   \<and> greens_func_float64 (Finite (2 powi (- 600))) (Finite 0) (Finite 0)
        (Finite 0) (Finite 0) (Finite 0) = Inl ZeroDivisionError
   \<and> greens_func_float64 (Finite 0) (Finite 0) (Finite 0)
        (Finite (2 powi (- 600))) (Finite 0) (Finite 0) = Inl ZeroDivisionError"
proof -
  have "distance_float64 (Finite 0) (Finite 0) (Finite 0) (Finite tiny) (Finite 0) (Finite 0)
      = Finite 0"
    using distance_float64_underflow
      distance_float64_commute [of "Finite 0" "Finite 0" "Finite 0" "Finite tiny"
        "Finite 0" "Finite 0"]
    by (simp only:)
  then have "tiny \<noteq> 0
      \<and> greens_func_float64 (Finite tiny) (Finite 0) (Finite 0) (Finite 0) (Finite 0) (Finite 0)
          = Inl ZeroDivisionError
      \<and> greens_func_float64 (Finite 0) (Finite 0) (Finite 0) (Finite tiny) (Finite 0) (Finite 0)
          = Inl ZeroDivisionError"
    using distance_float64_underflow tiny_nonzero by (simp add: greens_func_float64_def)
  then show ?thesis unfolding tiny_def .
qed

section \<open>Loops and element access\<close>

lemma wrap_index_nat: "i < n \<Longrightarrow> wrap_index n (int i) = Inr i"
  by (simp add: wrap_index_def)


lemma for_each_append:
  "for_each (xs @ ys) body st =
     (case for_each xs body st of (Some e, st') \<Rightarrow> (Some e, st') | (None, st') \<Rightarrow> for_each ys body st')"
  by (induction xs arbitrary: st) (auto split: prod.splits option.splits)

lemma for_each_upt_inv:
  assumes "P 0 st"
    and "\<And>k s. k < n \<Longrightarrow> P k s \<Longrightarrow> \<exists>s'. body k s = (None, s') \<and> P (Suc k) s'"
  shows "\<exists>s'. for_each [0..<n] body st = (None, s') \<and> P n s'"
  using assms(2)
proof (induction n)
  case 0
  then show ?case using assms(1) by simp
next
  case (Suc n)
  then obtain s1 where s1: "for_each [0..<n] body st = (None, s1)" "P n s1"
    by (meson less_SucI)
  from Suc.prems [of n s1] s1 obtain s2 where "body n s1 = (None, s2)" "P (Suc n) s2"
    by auto
  with s1 show ?case
    by (simp add: for_each_append)
qed

lemma for_each_snd_inv:
  assumes "Q st"
    and "\<And>i s. i \<in> set xs \<Longrightarrow> Q s \<Longrightarrow> Q (snd (body i s))"
  shows "Q (snd (for_each xs body st))"
  using assms
proof (induction xs arbitrary: st)
  case Nil
  then show ?case by simp
next
  case (Cons i rest)
  have q: "Q (snd (body i st))" using Cons.prems by simp
  show ?case
  proof (cases "body i st")
    case (Pair r s)
    with q have "Q s" by simp
    show ?thesis
    proof (cases r)
      case None
      with Pair \<open>Q s\<close> Cons show ?thesis by simp
    next
      case (Some e)
      with Pair \<open>Q s\<close> show ?thesis by simp
    qed
  qed
qed

lemma getitem_vector:
  "shape a = [n] \<Longrightarrow> i < n \<Longrightarrow> getitem st a (int i) = Inr (st ! buf a ! i)"
  by (simp add: getitem_def wrap_index_nat)

lemma getitem3_vectors:
  assumes "vectors_in st0 c n" "i < n" "\<forall>b<length st0. st ! b = st0 ! b"
  shows "getitem3 st c (int i) = Inr (point_at st0 c i)"
  using assms
  by (cases c) (simp add: getitem3_def vectors_in_def array_in_def point_at_def elems_def
      bind_err_def getitem_vector)

lemma cell_index_less: "i < r \<Longrightarrow> j < c \<Longrightarrow> i * c + j < r * (c::nat)"
proof -
  assume a: "i < r" "j < c"
  then have "i * c + j < i * c + c" by simp
  also have "\<dots> = Suc i * c" by simp
  also from a have "\<dots> \<le> r * c" by (intro mult_le_mono1) simp
  finally show ?thesis .
qed

section \<open>The Jacobian\<close>

lemma size_arr_vector: "shape a = [n] \<Longrightarrow> size_arr a = n"
  by (simp add: size_arr_def)

lemma setitem2_fresh:
  assumes "shape jac = [r, c]" "buf jac = length st0" "i < r" "j < c"
  shows "setitem2 jac (int i, int j) x (st0 @ [z]) = (None, st0 @ [z[i * c + j := x]])"
  using assms by (simp add: setitem2_def wrap_index_nat)

lemma fdiv_one:
  "fdiv (Finite 1) d = (if d = Finite 0 then Inl ZeroDivisionError
     else Inr (case d of Finite a \<Rightarrow> round64 (1 / a) | PInf \<Rightarrow> Finite 0 | NInf \<Rightarrow> Finite 0
                 | NaN \<Rightarrow> NaN))"
  by (cases d) simp_all

lemma greens_at_float64_vectors:
  assumes "vectors_in st0 c nd" "vectors_in st0 p np" "i < nd" "j < np"
    "\<forall>b<length st0. st ! b = st0 ! b"
  shows "greens_at_float64 st c p i j
     = fdiv (Finite 1) (dist3_float64 (point_at st0 c i) (point_at st0 p j))"
proof -
  obtain e n v where P: "point_at st0 c i = (e, n, v)" by (cases "point_at st0 c i")
  obtain e' n' v' where Q: "point_at st0 p j = (e', n', v')" by (cases "point_at st0 p j")
  show ?thesis
    using getitem3_vectors [OF assms(1) assms(3) assms(5)]
      getitem3_vectors [OF assms(2) assms(4) assms(5)] P Q
    by (simp add: greens_at_float64_def bind_err_def greens_func_float64_def dist3_float64_def)
qed

lemma jacobian_float64_row:
  assumes c: "vectors_in st0 coordinates nd" and p: "vectors_in st0 pts np"
    and nc: "\<forall>j<np. fdiv (Finite 1) (dist3_float64 (point_at st0 coordinates i) (point_at st0 pts j))
          = Inr (G i j)"
    and jac: "shape jac = [nd, np]" "buf jac = length st0"
    and i: "i < nd"
    and z: "length z = nd * np"
      "\<forall>i'<i. \<forall>j<np. z ! (i' * np + j) = G i' j"
  shows "\<exists>z'. for_each [0..<np] (\<lambda>j st.
            with_value (greens_at_float64 st coordinates pts i j) (setitem2 jac (int i, int j)) st)
            (st0 @ [z]) = (None, st0 @ [z'])
          \<and> length z' = nd * np
          \<and> (\<forall>i'<Suc i. \<forall>j<np. z' ! (i' * np + j) = G i' j)"
proof -
  let ?body = "\<lambda>j st. with_value (greens_at_float64 st coordinates pts i j)
      (setitem2 jac (int i, int j)) st"
  define Q where "Q = (\<lambda>j s. \<exists>z'. s = st0 @ [z'] \<and> length z' = nd * np
      \<and> (\<forall>i'<i. \<forall>j'<np. z' ! (i' * np + j') = G i' j')
      \<and> (\<forall>j'<j. z' ! (i * np + j') = G i j'))"
  have start: "Q 0 (st0 @ [z])"
    using z by (simp add: Q_def)
  have step: "\<exists>s'. ?body j s = (None, s') \<and> Q (Suc j) s'" if j: "j < np" and Qs: "Q j s" for j s
  proof -
    from Qs obtain z' where s: "s = st0 @ [z']" and len: "length z' = nd * np"
      and rows: "\<forall>i'<i. \<forall>j'<np. z' ! (i' * np + j') = G i' j'"
      and cols: "\<forall>j'<j. z' ! (i * np + j') = G i j'"
      by (auto simp add: Q_def)
    have agree: "\<forall>b<length st0. s ! b = st0 ! b"
      by (simp add: s nth_append)
    have g: "greens_at_float64 s coordinates pts i j = Inr (G i j)"
      using greens_at_float64_vectors [OF c p i j agree] nc j by simp
    have w: "?body j s = (None, st0 @ [z'[i * np + j := G i j]])"
      using setitem2_fresh [OF jac i j] g by (simp add: with_value_def s)
    have inb: "i * np + j < length z'"
      using cell_index_less [OF i j] len by simp
    have r': "z'[i * np + j := G i j] ! (i' * np + j') = G i' j'" if "i' < i" "j' < np" for i' j'
    proof -
      from that have "i' * np + j' < i * np" by (rule cell_index_less)
      then have "i' * np + j' \<noteq> i * np + j" by simp
      with rows that show ?thesis by simp
    qed
    have c': "z'[i * np + j := G i j] ! (i * np + j') = G i j'" if "j' < Suc j" for j'
    proof (cases "j' = j")
      case True
      with inb show ?thesis by simp
    next
      case False
      with that cols show ?thesis by simp
    qed
    have "Q (Suc j) (st0 @ [z'[i * np + j := G i j]])"
      unfolding Q_def using len r' c' by auto
    with w show ?thesis by blast
  qed
  from for_each_upt_inv [of Q "st0 @ [z]" np ?body, OF start step]
  obtain s' where fin: "for_each [0..<np] ?body (st0 @ [z]) = (None, s')" "Q np s'"
    by blast
  then obtain z' where z': "s' = st0 @ [z']" "length z' = nd * np"
      "\<forall>i'<i. \<forall>j'<np. z' ! (i' * np + j') = G i' j'"
      "\<forall>j'<np. z' ! (i * np + j') = G i j'"
    by (auto simp add: Q_def)
  have "\<forall>i'<Suc i. \<forall>j<np. z' ! (i' * np + j) = G i' j"
    using z'(3,4) by (auto simp add: less_Suc_eq)
  with fin(1) z'(1,2) show ?thesis by blast
qed

lemma jacobian_numba_float64_cells:
  assumes c: "vectors_in st0 coordinates nd" and p: "vectors_in st0 pts np"
    and nc: "\<forall>i<nd. \<forall>j<np.
        fdiv (Finite 1) (dist3_float64 (point_at st0 coordinates i) (point_at st0 pts j))
          = Inr (G i j)"
    and jac: "shape jac = [nd, np]" "buf jac = length st0"
    and z: "length z = nd * np"
  shows "\<exists>z'. jacobian_numba_float64 coordinates pts jac (st0 @ [z]) = (None, st0 @ [z'])
          \<and> length z' = nd * np
          \<and> (\<forall>i<nd. \<forall>j<np. z' ! (i * np + j) = G i j)"
proof -
  let ?row = "\<lambda>i. for_each [0..<np] (\<lambda>j st.
      with_value (greens_at_float64 st coordinates pts i j) (setitem2 jac (int i, int j)) st)"
  define P where "P = (\<lambda>i s. \<exists>z'. s = st0 @ [z'] \<and> length z' = nd * np
      \<and> (\<forall>i'<i. \<forall>j<np. z' ! (i' * np + j) = G i' j))"
  have start: "P 0 (st0 @ [z])"
    using z by (simp add: P_def)
  have step: "\<exists>s'. ?row i s = (None, s') \<and> P (Suc i) s'" if "i < nd" "P i s" for i s
  proof -
    from that(2) obtain z' where s: "s = st0 @ [z']" "length z' = nd * np"
      "\<forall>i'<i. \<forall>j<np. z' ! (i' * np + j) = G i' j"
      by (auto simp add: P_def)
    from nc that(1) have row: "\<forall>j<np.
        fdiv (Finite 1) (dist3_float64 (point_at st0 coordinates i) (point_at st0 pts j))
          = Inr (G i j)"
      by simp
    from jacobian_float64_row [OF c p row jac that(1) s(2) s(3)] s(1)
    show ?thesis unfolding P_def by blast
  qed
  from for_each_upt_inv [of P "st0 @ [z]" nd ?row, OF start step]
  obtain s' where fin: "for_each [0..<nd] ?row (st0 @ [z]) = (None, s')" "P nd s'"
    by blast
  obtain east north vertical where cs: "coordinates = (east, north, vertical)"
    by (cases coordinates)
  obtain pe pn pv where ps: "pts = (pe, pn, pv)"
    by (cases pts)
  have sz: "size_arr east = nd" "size_arr pe = np"
    using c p by (simp_all add: cs ps vectors_in_def size_arr_vector)
  have "jacobian_numba_float64 coordinates pts jac (st0 @ [z]) = for_each [0..<nd] ?row (st0 @ [z])"
    by (simp add: jacobian_numba_float64_def cs ps sz)
  with fin show ?thesis
    unfolding P_def by auto
qed

lemma jacobian_float64_returns:
  assumes "vectors_in st coordinates n_data" and "vectors_in st pts n_points"
    and "apart_float64 st coordinates n_data pts n_points"
  shows "\<exists>jac st'. jacobian_float64 self coordinates pts st = (Inr jac, st')
          \<and> shape jac = [n_data, n_points] \<and> array_in st' jac
          \<and> (\<forall>i<n_data. \<forall>j<n_points.
                fdiv (Finite 1) (dist3_float64 (point_at st coordinates i) (point_at st pts j))
                  = Inr (elems st' jac ! (i * n_points + j)))"
proof -
  let ?jac = "\<lparr>buf = length st, shape = [n_data, n_points]\<rparr>"
  let ?d = "\<lambda>i j. dist3_float64 (point_at st coordinates i) (point_at st pts j)"
  define G where "G = (\<lambda>i j. case ?d i j of Finite a \<Rightarrow> round64 (1 / a) | PInf \<Rightarrow> Finite 0
      | NInf \<Rightarrow> Finite 0 | NaN \<Rightarrow> NaN)"
  have nc: "\<forall>i<n_data. \<forall>j<n_points. fdiv (Finite 1) (?d i j) = Inr (G i j)"
    using assms(3) by (simp add: apart_float64_def fdiv_one G_def)
  have sz: "size_arr (fst coordinates) = n_data" "size_arr (fst pts) = n_points"
    using assms(1,2) by (auto simp add: vectors_in_def size_arr_vector split: prod.splits)
  from jacobian_numba_float64_cells [OF assms(1) assms(2) nc, of ?jac
      "replicate (n_data * n_points) (Finite 0)"]
  obtain z' where z': "jacobian_numba_float64 coordinates pts ?jac
        (st @ [replicate (n_data * n_points) (Finite 0)]) = (None, st @ [z'])"
      "length z' = n_data * n_points"
      "\<forall>i<n_data. \<forall>j<n_points. z' ! (i * n_points + j) = G i j"
    by auto
  have "jacobian_float64 self coordinates pts st = (Inr ?jac, st @ [z'])"
    using z'(1) by (simp add: jacobian_float64_def np_zeros_float64_def sz Let_def)
  moreover have "array_in (st @ [z']) ?jac"
    using z'(2) by (simp add: array_in_def size_arr_def)
  moreover have "\<forall>i<n_data. \<forall>j<n_points.
      fdiv (Finite 1) (?d i j) = Inr (elems (st @ [z']) ?jac ! (i * n_points + j))"
    using z'(3) nc by (simp add: elems_def)
  ultimately show ?thesis by auto
qed

lemma for_each_upt_fail:
  assumes "P 0 st" and "k < n"
    and "\<And>i s. i < k \<Longrightarrow> P i s \<Longrightarrow> \<exists>s'. body i s = (None, s') \<and> P (Suc i) s'"
    and "\<And>s. P k s \<Longrightarrow> fst (body k s) = Some e"
  shows "fst (for_each [0..<n] body st) = Some e"
proof -
  from for_each_upt_inv [of P st k body, OF assms(1) assms(3)]
  obtain s' where s': "for_each [0..<k] body st = (None, s')" "P k s'"
    by blast
  from assms(4) [OF s'(2)] obtain s'' where b: "body k s' = (Some e, s'')"
    by (cases "body k s'") simp
  have "[0..<k + (n - k)] = [0..<k] @ [k..<k + (n - k)]"
    by (rule upt_add_eq_append) simp
  with assms(2) have "[0..<n] = [0..<k] @ [k..<n]" by simp
  moreover from assms(2) have "[k..<n] = k # [Suc k..<n]" by (rule upt_conv_Cons)
  ultimately have "[0..<n] = [0..<k] @ k # [Suc k..<n]" by simp
  then show ?thesis
    by (simp add: for_each_append s'(1) b)
qed

lemma jacobian_float64_cell:
  assumes c: "vectors_in st0 coordinates nd" and p: "vectors_in st0 pts np"
    and jac: "shape jac = [nd, np]" "buf jac = length st0"
    and i: "i < nd" and j: "j < np"
  shows "with_value (greens_at_float64 (st0 @ [z]) coordinates pts i j)
           (setitem2 jac (int i, int j)) (st0 @ [z])
     = (case fdiv (Finite 1) (dist3_float64 (point_at st0 coordinates i) (point_at st0 pts j)) of
          Inl e \<Rightarrow> (Some e, st0 @ [z])
        | Inr g \<Rightarrow> (None, st0 @ [z[i * np + j := g]]))"
proof -
  have agree: "\<forall>b<length st0. (st0 @ [z]) ! b = st0 ! b"
    by (simp add: nth_append)
  show ?thesis
    using greens_at_float64_vectors [OF c p i j agree] setitem2_fresh [OF jac i j]
    by (simp add: with_value_def split: sum.splits)
qed

lemma jacobian_float64_row_runs:
  assumes c: "vectors_in st0 coordinates nd" and p: "vectors_in st0 pts np"
    and jac: "shape jac = [nd, np]" "buf jac = length st0"
    and i: "i < nd" and z: "length z = nd * np"
    and nc: "\<forall>j<np. dist3_float64 (point_at st0 coordinates i) (point_at st0 pts j) \<noteq> Finite 0"
  shows "\<exists>z'. for_each [0..<np] (\<lambda>j st.
            with_value (greens_at_float64 st coordinates pts i j) (setitem2 jac (int i, int j)) st)
            (st0 @ [z]) = (None, st0 @ [z']) \<and> length z' = nd * np"
proof -
  let ?body = "\<lambda>j st. with_value (greens_at_float64 st coordinates pts i j)
      (setitem2 jac (int i, int j)) st"
  define S where "S = (\<lambda>(k::nat) s. \<exists>z'. s = st0 @ [z'] \<and> length z' = nd * np)"
  have start: "S 0 (st0 @ [z])" using z by (simp add: S_def)
  have step: "\<exists>s'. ?body j s = (None, s') \<and> S (Suc j) s'" if "j < np" "S j s" for j s
  proof -
    from that(2) obtain z' where s: "s = st0 @ [z']" "length z' = nd * np"
      by (auto simp add: S_def)
    from nc that(1) have "dist3_float64 (point_at st0 coordinates i) (point_at st0 pts j) \<noteq> Finite 0"
      by simp
    then show ?thesis
      unfolding s(1) jacobian_float64_cell [OF c p jac i that(1)] S_def
      using s(2) by (simp add: fdiv_one)
  qed
  from for_each_upt_inv [of S "st0 @ [z]" np ?body, OF start step]
  show ?thesis unfolding S_def by blast
qed

lemma jacobian_float64_row_raises:
  assumes c: "vectors_in st0 coordinates nd" and p: "vectors_in st0 pts np"
    and jac: "shape jac = [nd, np]" "buf jac = length st0"
    and i: "i < nd" and z: "length z = nd * np"
    and bad: "j0 < np" "dist3_float64 (point_at st0 coordinates i) (point_at st0 pts j0) = Finite 0"
  shows "fst (for_each [0..<np] (\<lambda>j st.
            with_value (greens_at_float64 st coordinates pts i j) (setitem2 jac (int i, int j)) st)
            (st0 @ [z])) = Some ZeroDivisionError"
proof -
  let ?body = "\<lambda>j st. with_value (greens_at_float64 st coordinates pts i j)
      (setitem2 jac (int i, int j)) st"
  let ?zero = "\<lambda>j. dist3_float64 (point_at st0 coordinates i) (point_at st0 pts j) = Finite 0"
  define k where "k = (LEAST j. ?zero j)"
  have k0: "?zero k" unfolding k_def using bad(2) by (rule LeastI)
  have "k \<le> j0" unfolding k_def using bad(2) by (rule Least_le)
  with bad(1) have k: "k < np" by simp
  have before: "\<not> ?zero j" if "j < k" for j
    using that unfolding k_def by (rule not_less_Least)
  define S where "S = (\<lambda>(k::nat) s. \<exists>z'. s = st0 @ [z'] \<and> length z' = nd * np)"
  have start: "S 0 (st0 @ [z])" using z by (simp add: S_def)
  have step: "\<exists>s'. ?body j s = (None, s') \<and> S (Suc j) s'" if "j < k" "S j s" for j s
  proof -
    from that(2) obtain z' where s: "s = st0 @ [z']" "length z' = nd * np"
      by (auto simp add: S_def)
    from that(1) k have j: "j < np" by simp
    from before [OF that(1)] show ?thesis
      unfolding s(1) jacobian_float64_cell [OF c p jac i j] S_def
      using s(2) by (simp add: fdiv_one)
  qed
  have stop: "fst (?body k s) = Some ZeroDivisionError" if "S k s" for s
  proof -
    from that obtain z' where s: "s = st0 @ [z']" by (auto simp add: S_def)
    show ?thesis
      unfolding s jacobian_float64_cell [OF c p jac i k] using k0 by (simp add: fdiv_one)
  qed
  from start k step stop show ?thesis by (rule for_each_upt_fail)
qed

lemma jacobian_numba_float64_raises:
  assumes c: "vectors_in st0 coordinates nd" and p: "vectors_in st0 pts np"
    and jac: "shape jac = [nd, np]" "buf jac = length st0"
    and z: "length z = nd * np"
    and bad: "i0 < nd" "j0 < np"
      "dist3_float64 (point_at st0 coordinates i0) (point_at st0 pts j0) = Finite 0"
  shows "fst (jacobian_numba_float64 coordinates pts jac (st0 @ [z])) = Some ZeroDivisionError"
proof -
  let ?row = "\<lambda>i. for_each [0..<np] (\<lambda>j st.
      with_value (greens_at_float64 st coordinates pts i j) (setitem2 jac (int i, int j)) st)"
  let ?zero = "\<lambda>i. \<exists>j<np. dist3_float64 (point_at st0 coordinates i) (point_at st0 pts j) = Finite 0"
  define k where "k = (LEAST i. ?zero i)"
  from bad(2,3) have z0: "?zero i0" by blast
  have k0: "?zero k" unfolding k_def using z0 by (rule LeastI)
  have "k \<le> i0" unfolding k_def using z0 by (rule Least_le)
  with bad(1) have k: "k < nd" by simp
  have before: "\<not> ?zero i" if "i < k" for i
    using that unfolding k_def by (rule not_less_Least)
  define S where "S = (\<lambda>(k::nat) s. \<exists>z'. s = st0 @ [z'] \<and> length z' = nd * np)"
  have start: "S 0 (st0 @ [z])" using z by (simp add: S_def)
  have step: "\<exists>s'. ?row i s = (None, s') \<and> S (Suc i) s'" if "i < k" "S i s" for i s
  proof -
    from that(2) obtain z' where s: "s = st0 @ [z']" "length z' = nd * np"
      by (auto simp add: S_def)
    from that(1) k have i: "i < nd" by simp
    from before [OF that(1)]
    have nc: "\<forall>j<np. dist3_float64 (point_at st0 coordinates i) (point_at st0 pts j) \<noteq> Finite 0"
      by blast
    from jacobian_float64_row_runs [OF c p jac i s(2) nc] show ?thesis
      unfolding s(1) S_def by blast
  qed
  have stop: "fst (?row k s) = Some ZeroDivisionError" if "S k s" for s
  proof -
    from that obtain z' where s: "s = st0 @ [z']" "length z' = nd * np"
      by (auto simp add: S_def)
    from k0 obtain j where j: "j < np"
        "dist3_float64 (point_at st0 coordinates k) (point_at st0 pts j) = Finite 0"
      by blast
    from jacobian_float64_row_raises [OF c p jac k s(2) j] show ?thesis
      unfolding s(1) .
  qed
  obtain east north vertical where cs: "coordinates = (east, north, vertical)"
    by (cases coordinates)
  obtain pe pn pv where ps: "pts = (pe, pn, pv)"
    by (cases pts)
  have sz: "size_arr east = nd" "size_arr pe = np"
    using c p by (simp_all add: cs ps vectors_in_def size_arr_vector)
  have "jacobian_numba_float64 coordinates pts jac (st0 @ [z]) = for_each [0..<nd] ?row (st0 @ [z])"
    by (simp add: jacobian_numba_float64_def cs ps sz)
  moreover from start k step stop
  have "fst (for_each [0..<nd] ?row (st0 @ [z])) = Some ZeroDivisionError"
    by (rule for_each_upt_fail)
  ultimately show ?thesis by simp
qed

lemma jacobian_float64_raises:
  assumes "vectors_in st coordinates n_data" and "vectors_in st pts n_points"
    and "\<not> apart_float64 st coordinates n_data pts n_points"
  shows "fst (jacobian_float64 self coordinates pts st) = Inl ZeroDivisionError"
proof -
  let ?jac = "\<lparr>buf = length st, shape = [n_data, n_points]\<rparr>"
  let ?z = "replicate (n_data * n_points) (Finite 0)"
  from assms(3) obtain i j where bad: "i < n_data" "j < n_points"
      "dist3_float64 (point_at st coordinates i) (point_at st pts j) = Finite 0"
    by (auto simp add: apart_float64_def)
  have sz: "size_arr (fst coordinates) = n_data" "size_arr (fst pts) = n_points"
    using assms(1,2) by (auto simp add: vectors_in_def size_arr_vector split: prod.splits)
  have "fst (jacobian_numba_float64 coordinates pts ?jac (st @ [?z])) = Some ZeroDivisionError"
    by (rule jacobian_numba_float64_raises [OF assms(1) assms(2) _ _ _ bad]) simp_all
  then show ?thesis
    by (cases "jacobian_numba_float64 coordinates pts ?jac (st @ [?z])")
      (simp add: jacobian_float64_def np_zeros_float64_def sz Let_def)
qed

lemma sqrt_16: "sqrt 16 = 4"
proof -
  have "sqrt 16 = sqrt (4\<^sup>2)" by simp
  then show ?thesis by (simp only: real_sqrt_abs abs_numeral)
qed

lemma sqrt_25: "sqrt 25 = 5"
proof -
  have "sqrt 25 = sqrt (5\<^sup>2)" by simp
  then show ?thesis by (simp only: real_sqrt_abs abs_numeral)
qed

lemmas float64_simps = distance_float64_def round64_0 round64_numeral round64_neg_numeral
  sqrt_16 sqrt_25

lemma distance_float64_0_4:
  "distance_float64 (Finite 0) (Finite 0) (Finite 0) (Finite 0) (Finite 4) (Finite 0) = Finite 4"
  by (simp add: float64_simps)

lemma distance_float64_3_0_4:
  "distance_float64 (Finite 3) (Finite 0) (Finite 0) (Finite 0) (Finite 4) (Finite 0) = Finite 5"
  by (simp add: float64_simps)

lemma apart_float64_2_1:
  "apart_float64 st c 2 p 1 \<longleftrightarrow> dist3_float64 (point_at st c 0) (point_at st p 0) \<noteq> Finite 0
     \<and> dist3_float64 (point_at st c 1) (point_at st p 0) \<noteq> Finite 0"
  by (auto simp add: apart_float64_def numeral_2_eq_2 less_Suc_eq)

text \<open>
  Claim C5, amended. For a data coordinate triple of \<open>n_data\<close> points and a point
  source triple of \<open>n_points\<close> points: if the computed distance of every data point
  to every source is not zero, \<^verbatim>\<open>jacobian\<close> returns an array of shape
  \<open>(n_data, n_points)\<close> whose entry at row \<open>i\<close>, column \<open>j\<close> is
  \<^verbatim>\<open>1 / distance(data_i, source_j)\<close>, in \<^verbatim>\<open>float64\<close> arithmetic; if the
  computed distance of some pair is zero, it raises \<^verbatim>\<open>ZeroDivisionError\<close>.
\<close>

theorem jacobian_float64_entries:
  assumes "vectors_in st coordinates n_data" and "vectors_in st pts n_points"
  shows "(apart_float64 st coordinates n_data pts n_points \<longrightarrow>
          (\<exists>jac st'. jacobian_float64 self coordinates pts st = (Inr jac, st')
            \<and> shape jac = [n_data, n_points] \<and> array_in st' jac
            \<and> (\<forall>i<n_data. \<forall>j<n_points.
                  fdiv (Finite 1) (dist3_float64 (point_at st coordinates i) (point_at st pts j))
                    = Inr (elems st' jac ! (i * n_points + j)))))
     \<and> (\<not> apart_float64 st coordinates n_data pts n_points \<longrightarrow>
          fst (jacobian_float64 self coordinates pts st) = Inl ZeroDivisionError)"
  using jacobian_float64_returns [OF assms] jacobian_float64_raises [OF assms]
  by blast

theorem jacobian_float64_entries_witness:
  "vectors_in line64 (vec 0 2, vec 1 2, vec 2 2) 2
   \<and> vectors_in line64 (vec 3 1, vec 4 1, vec 5 1) 1
   \<and> apart_float64 line64 (vec 0 2, vec 1 2, vec 2 2) 2 (vec 3 1, vec 4 1, vec 5 1) 1
   \<and> (\<exists>jac st'. jacobian_float64 (init None None 3) (vec 0 2, vec 1 2, vec 2 2)
          (vec 3 1, vec 4 1, vec 5 1) line64 = (Inr jac, st')
        \<and> shape jac = [2, 1]
        \<and> elems st' jac ! 0 = round64 (1 / 4) \<and> elems st' jac ! 1 = round64 (1 / 5))"
proof -
  let ?c = "(vec 0 2, vec 1 2, vec 2 2)"
  let ?p = "(vec 3 1, vec 4 1, vec 5 1)"
  have h1: "vectors_in line64 ?c 2"
    by (simp add: vectors_in_def array_in_def vec_def size_arr_def line64_def)
  have h2: "vectors_in line64 ?p 1"
    by (simp add: vectors_in_def array_in_def vec_def size_arr_def line64_def)
  have d0: "dist3_float64 (point_at line64 ?c 0) (point_at line64 ?p 0) = Finite 4"
    by (simp add: dist3_float64_def point_at_def elems_def vec_def line64_def distance_float64_0_4)
  have d1: "dist3_float64 (point_at line64 ?c 1) (point_at line64 ?p 0) = Finite 5"
    by (simp add: dist3_float64_def point_at_def elems_def vec_def line64_def
        distance_float64_3_0_4)
  have h3: "apart_float64 line64 ?c 2 ?p 1"
    unfolding apart_float64_2_1 d0 d1 by simp
  from jacobian_float64_entries [OF h1 h2, of "init None None 3"] h3
  obtain jac st' where r: "jacobian_float64 (init None None 3) ?c ?p line64 = (Inr jac, st')"
      "shape jac = [2, 1]"
      "\<forall>i<2. \<forall>j<1. fdiv (Finite 1) (dist3_float64 (point_at line64 ?c i) (point_at line64 ?p j))
          = Inr (elems st' jac ! (i * 1 + j))"
    by blast
  from r(3) have "fdiv (Finite 1) (dist3_float64 (point_at line64 ?c 0) (point_at line64 ?p 0))
      = Inr (elems st' jac ! (0 * 1 + 0))"
    by simp
  then have e0: "elems st' jac ! 0 = round64 (1 / 4)"
    unfolding d0 by simp
  from r(3) have "fdiv (Finite 1) (dist3_float64 (point_at line64 ?c 1) (point_at line64 ?p 0))
      = Inr (elems st' jac ! (1 * 1 + 0))"
    by simp
  then have e1: "elems st' jac ! 1 = round64 (1 / 5)"
    unfolding d1 by simp
  from h1 h2 h3 r(1,2) e0 e1 show ?thesis by blast
qed

text \<open>
  Claim C5 as stated fails: the data point \<open>(2\<^sup>-\<^sup>6\<^sup>0\<^sup>0, 0, 0)\<close> and the source
  \<open>(0, 0, 0)\<close> do not coincide, but their computed distance is zero, and
  \<^verbatim>\<open>jacobian\<close> raises \<^verbatim>\<open>ZeroDivisionError\<close> instead of returning the matrix.
\<close>

theorem jacobian_float64_counterexample:
  "vectors_in close_pair (vec 0 1, vec 1 1, vec 2 1) 1
   \<and> vectors_in close_pair (vec 3 1, vec 4 1, vec 5 1) 1
   \<and> point_at close_pair (vec 0 1, vec 1 1, vec 2 1) 0
       \<noteq> point_at close_pair (vec 3 1, vec 4 1, vec 5 1) 0
   \<and> jacobian_float64 (init None None 3) (vec 0 1, vec 1 1, vec 2 1) (vec 3 1, vec 4 1, vec 5 1)
        close_pair = (Inl ZeroDivisionError, close_pair @ [[Finite 0]])"
proof -
  have h1: "vectors_in close_pair (vec 0 1, vec 1 1, vec 2 1) 1"
    by (simp add: vectors_in_def array_in_def vec_def size_arr_def close_pair_def)
  have h2: "vectors_in close_pair (vec 3 1, vec 4 1, vec 5 1) 1"
    by (simp add: vectors_in_def array_in_def vec_def size_arr_def close_pair_def)
  have ne: "point_at close_pair (vec 0 1, vec 1 1, vec 2 1) 0
      \<noteq> point_at close_pair (vec 3 1, vec 4 1, vec 5 1) 0"
    using tiny_nonzero by (simp add: point_at_def elems_def vec_def close_pair_def)
  have g: "greens_func_float64 (Finite tiny) (Finite 0) (Finite 0) (Finite 0) (Finite 0) (Finite 0)
      = Inl ZeroDivisionError"
    by (simp add: greens_func_float64_def distance_float64_underflow)
  have run: "jacobian_float64 (init None None 3) (vec 0 1, vec 1 1, vec 2 1)
      (vec 3 1, vec 4 1, vec 5 1) close_pair = (Inl ZeroDivisionError, close_pair @ [[Finite 0]])"
    by (simp add: jacobian_float64_def jacobian_numba_float64_def np_zeros_float64_def
        greens_at_float64_def getitem3_def getitem_def wrap_index_def bind_err_def with_value_def
        size_arr_def vec_def close_pair_def g Let_def)
  from h1 h2 ne run show ?thesis by (simp only: simp_thms)
qed

section \<open>The paths through \<^verbatim>\<open>fit\<close>\<close>

lemma fit_solve_cases:
  "fit_solve ls self jac d w st = (out, self', st') \<Longrightarrow>
     region_attr self' = region_attr self \<and> points_attr self' = points_attr self
     \<and> (out \<noteq> None \<longrightarrow> self' = self \<and> st' = st)
     \<and> (out = None \<longrightarrow> (\<exists>cs. coefs_attr self' = Some \<lparr>buf = length st, shape = [length cs]\<rparr>
            \<and> st' = st @ [cs]))"
  by (auto simp add: fit_solve_def split: sum.splits)

lemma fit_elim:
  assumes "fit ls self c d w st = (out, self', st')"
  obtains
    (check) e where "check_fit_input c d w = Inl e" "out = Some e" "self' = self" "st' = st"
  | (region) checked e where "check_fit_input c d w = Inr checked"
      "get_region st (fst (fst checked), fst (snd (fst checked))) = Inl e"
      "out = Some e" "self' = self" "st' = st"
  | (points) checked region e where "check_fit_input c d w = Inr checked"
      "get_region st (fst (fst checked), fst (snd (fst checked))) = Inr region"
      "fit_points (self\<lparr>region_attr := Some region\<rparr>) (ravel3 (fst checked)) st = (Inl e, st')"
      "out = Some e" "self' = self\<lparr>region_attr := Some region\<rparr>"
  | (jac) checked region pts st1 e where "check_fit_input c d w = Inr checked"
      "get_region st (fst (fst checked), fst (snd (fst checked))) = Inr region"
      "fit_points (self\<lparr>region_attr := Some region\<rparr>) (ravel3 (fst checked)) st = (Inr pts, st1)"
      "jacobian (self\<lparr>region_attr := Some region, points_attr := Some pts\<rparr>)
         (ravel3 (fst checked)) pts st1 = (Inl e, st')"
      "out = Some e" "self' = self\<lparr>region_attr := Some region, points_attr := Some pts\<rparr>"
  | (solve) checked region pts st1 jac st2 where "check_fit_input c d w = Inr checked"
      "get_region st (fst (fst checked), fst (snd (fst checked))) = Inr region"
      "fit_points (self\<lparr>region_attr := Some region\<rparr>) (ravel3 (fst checked)) st = (Inr pts, st1)"
      "jacobian (self\<lparr>region_attr := Some region, points_attr := Some pts\<rparr>)
         (ravel3 (fst checked)) pts st1 = (Inr jac, st2)"
      "fit_solve ls (self\<lparr>region_attr := Some region, points_attr := Some pts\<rparr>) jac
         (fst (snd checked)) (snd (snd checked)) st2 = (out, self', st')"
proof (cases "check_fit_input c d w")
  case (Inl e)
  with assms have "out = Some e" "self' = self" "st' = st"
    by (simp_all add: fit_def)
  with Inl show ?thesis by (rule check)
next
  case chk: (Inr checked)
  show ?thesis
  proof (cases "get_region st (fst (fst checked), fst (snd (fst checked)))")
    case (Inl e)
    with assms chk have "out = Some e" "self' = self" "st' = st"
      by (simp_all add: fit_def)
    with chk Inl show ?thesis by (rule region)
  next
    case reg: (Inr reg)
    let ?self1 = "self\<lparr>region_attr := Some reg\<rparr>"
    obtain r1 st1 where fp: "fit_points ?self1 (ravel3 (fst checked)) st = (r1, st1)"
      by (cases "fit_points ?self1 (ravel3 (fst checked)) st")
    show ?thesis
    proof (cases r1)
      case (Inl e)
      with assms chk reg fp have "out = Some e" "self' = ?self1" "st' = st1"
        by (simp_all add: fit_def Let_def)
      with chk reg fp Inl show ?thesis by (intro points) simp_all
    next
      case pts: (Inr pts)
      let ?self2 = "self\<lparr>region_attr := Some reg, points_attr := Some pts\<rparr>"
      obtain r2 st2 where jc: "jacobian ?self2 (ravel3 (fst checked)) pts st1 = (r2, st2)"
        by (cases "jacobian ?self2 (ravel3 (fst checked)) pts st1")
      show ?thesis
      proof (cases r2)
        case (Inl e)
        with assms chk reg fp pts jc have "out = Some e" "self' = ?self2" "st' = st2"
          by (simp_all add: fit_def Let_def)
        with chk reg fp pts jc Inl show ?thesis by (intro jac) simp_all
      next
        case (Inr jc')
        with assms chk reg fp pts jc
        have "fit_solve ls ?self2 jc' (fst (snd checked)) (snd (snd checked)) st2 = (out, self', st')"
          by (simp add: fit_def Let_def)
        with chk reg fp pts jc Inr show ?thesis by (intro solve) simp_all
      qed
    qed
  qed
qed

lemma fit_coefs_kept:
  assumes "fit ls self c d w st = (Some e, self', st')"
  shows "coefs_attr self' = coefs_attr self"
  using assms
proof (cases rule: fit_elim)
  case (solve checked region pts st1 jac st2)
  from fit_solve_cases [OF solve(5)] show ?thesis by simp
qed simp_all

lemma never_fitted_coefs: "never_fitted self \<Longrightarrow> coefs_attr self = None"
  by (induction rule: never_fitted.induct) (simp_all add: init_def fit_coefs_kept)

lemma for_each_error:
  assumes "\<And>i s e. i \<in> set xs \<Longrightarrow> fst (body i s) = Some e \<Longrightarrow> Q e"
    and "fst (for_each xs body st) = Some e"
  shows "Q e"
  using assms
proof (induction xs arbitrary: st)
  case Nil
  then show ?case by simp
next
  case (Cons i rest)
  have step: "Q e" if "k \<in> set rest" "fst (body k s) = Some e" for k s e
    using Cons.prems(1) [of k s e] that by simp
  show ?case
  proof (cases "body i st")
    case (Pair r s)
    show ?thesis
    proof (cases r)
      case None
      with Pair Cons.prems(2) have "fst (for_each rest body s) = Some e" by simp
      with Cons.IH [of s] step show ?thesis by blast
    next
      case (Some e')
      with Pair Cons.prems(2) have "e' = e" by simp
      with Cons.prems(1) [of i st e] Pair Some show ?thesis by simp
    qed
  qed
qed

lemma wrap_index_error: "wrap_index n i = Inl e \<Longrightarrow> numba_error e"
  by (auto simp add: wrap_index_def Let_def numba_error_def split: if_splits)

lemma getitem_error: "getitem st a i = Inl e \<Longrightarrow> numba_error e"
  by (auto simp add: getitem_def numba_error_def split: list.splits sum.splits
      dest: wrap_index_error)

lemma getitem3_error: "getitem3 st c i = Inl e \<Longrightarrow> numba_error e"
  by (auto simp add: getitem3_def bind_err_def split: prod.splits sum.splits dest: getitem_error)

lemma greens_at_error: "greens_at st c p i j = Inl e \<Longrightarrow> numba_error e"
  by (auto simp add: greens_at_def bind_err_def greens_func_def Let_def numba_error_def
      split: prod.splits sum.splits if_splits dest: getitem3_error)

lemma setitem2_error: "fst (setitem2 a ij x st) = Some e \<Longrightarrow> numba_error e"
  by (auto simp add: setitem2_def numba_error_def split: list.splits sum.splits
      dest: wrap_index_error)

lemma jacobian_numba_error:
  assumes "fst (jacobian_numba c p jac st) = Some e"
  shows "numba_error e"
proof -
  obtain east north vertical where c: "c = (east, north, vertical)" by (cases c)
  obtain pe pn pv where p: "p = (pe, pn, pv)" by (cases p)
  have cell: "numba_error e'" if "fst (with_value (greens_at s c p i j) (setitem2 jac (int i, int j)) s) = Some e'"
    for i j s e'
    using that
    by (auto simp add: with_value_def split: sum.splits dest: greens_at_error setitem2_error)
  have row: "numba_error e'"
    if "fst (for_each [0..<size_arr pe] (\<lambda>j st.
          with_value (greens_at st c p i j) (setitem2 jac (int i, int j)) st) s) = Some e'"
    for i s e'
    using for_each_error [where Q = numba_error, OF _ that] cell by blast
  from assms have "fst (for_each [0..<size_arr east] (\<lambda>i.
      for_each [0..<size_arr pe] (\<lambda>j st.
        with_value (greens_at st c p i j) (setitem2 jac (int i, int j)) st)) st) = Some e"
    by (simp add: jacobian_numba_def c p)
  from for_each_error [where Q = numba_error, OF _ this] row show ?thesis by blast
qed

lemma jacobian_error:
  assumes "fst (jacobian self c p st) = Inl e"
  shows "numba_error e"
proof -
  let ?jac = "fst (np_zeros [size_arr (fst c), size_arr (fst p)] st)"
  let ?st1 = "snd (np_zeros [size_arr (fst c), size_arr (fst p)] st)"
  obtain r s where run: "jacobian_numba c p ?jac ?st1 = (r, s)"
    by (cases "jacobian_numba c p ?jac ?st1")
  with assms have "r = Some e"
    by (cases r) (simp_all add: jacobian_def Let_def)
  with run jacobian_numba_error [of c p ?jac ?st1 e] show ?thesis by simp
qed

section \<open>Evaluation of the examples\<close>

lemma for_each_upt_Suc:
  "for_each [0..<Suc n] body st =
     (case for_each [0..<n] body st of (Some e, s) \<Rightarrow> (Some e, s) | (None, s) \<Rightarrow> body n s)"
  by (simp add: for_each_append split: prod.splits option.splits)

lemmas run_simps = for_each_upt_Suc numeral_2_eq_2 size_arr_def vec_def elems_def
  getitem_def setitem_def setitem2_def wrap_index_def getitem3_def bind_err_def with_value_def
  greens_at_def greens_func_def distance_def Let_def np_zeros_def

lemmas fit_simps = fit_def check_fit_input_def get_region_def fit_points_def fit_solve_def
  init_def ravel3_def ravel_def atleast_1d_def jacobian_def jacobian_numba_def

lemmas example_defs = survey_def line_a_def line_b_def source_def fitted_a_def survey_a_def

lemma fit_line_a:
  "fit (\<lambda>J d w l. Inr [1]) (init None (Some source) 3) line_a (vec 9 2) None survey
     = (None, fitted_a, survey_a)"
  by (simp add: fit_simps example_defs run_simps)

lemma fit_line_a_singular:
  "fit (\<lambda>J d w l. Inl SingularSystem) (init None (Some source) 3) line_a (vec 9 2) None survey
     = (Some SingularSystem,
        (init None (Some source) 3)\<lparr>region_attr := Some (0, 3, 0, 0), points_attr := Some source\<rparr>,
        survey @ [[1 / 4, 1 / 5]])"
  by (simp add: fit_simps example_defs run_simps)

lemma fit_line_b_singular:
  "fit (\<lambda>J d w l. Inl SingularSystem) fitted_a line_b (vec 9 2) None survey_a
     = (Some SingularSystem, fitted_a\<lparr>region_attr := Some (0, 0, 0, 8)\<rparr>,
        survey_a @ [[1 / 4, 1 / 4]])"
  by (simp add: fit_simps example_defs run_simps)

lemma jacobian_line_a:
  "jacobian self line_a source survey = (Inr \<lparr>buf = 10, shape = [2, 1]\<rparr>, survey @ [[1 / 4, 1 / 5]])"
  by (simp add: fit_simps example_defs run_simps)

section \<open>Fitted state\<close>

text \<open>
  Claim C4, amended. On an instance on which no fit has succeeded, \<^verbatim>\<open>predict\<close> raises
  \<open>NotFitted\<close> and returns nothing, leaving the store as it was. \<^verbatim>\<open>jacobian\<close> has no
  such guard: it never raises \<open>NotFitted\<close>, and its outcome does not depend on the
  instance at all.
\<close>

theorem predict_not_fitted:
  assumes "never_fitted self"
  shows "predict self coordinates st = (Inl NotFitted, st)
     \<and> fst (jacobian self c p st) \<noteq> Inl NotFitted
     \<and> jacobian self c p st = jacobian other c p st"
proof -
  from assms have "coefs_attr self = None" by (rule never_fitted_coefs)
  then have "predict self coordinates st = (Inl NotFitted, st)"
    by (simp add: predict_def check_is_fitted_def)
  moreover have "fst (jacobian self c p st) \<noteq> Inl NotFitted"
    using jacobian_error [of self c p st NotFitted] by (auto simp add: numba_error_def)
  moreover have "jacobian self c p st = jacobian other c p st"
    by (simp add: jacobian_def)
  ultimately show ?thesis by simp
qed

theorem predict_not_fitted_witness:
  "never_fitted ((init None (Some source) 3)
      \<lparr>region_attr := Some (0, 3, 0, 0), points_attr := Some source\<rparr>)
   \<and> predict ((init None (Some source) 3)
      \<lparr>region_attr := Some (0, 3, 0, 0), points_attr := Some source\<rparr>) line_b survey
        = (Inl NotFitted, survey)"
proof -
  have "never_fitted (init None (Some source) 3)" by (rule never_fitted.fresh)
  then have h: "never_fitted ((init None (Some source) 3)
      \<lparr>region_attr := Some (0, 3, 0, 0), points_attr := Some source\<rparr>)"
    using fit_line_a_singular by (rule never_fitted.failed)
  from predict_not_fitted [OF h] h show ?thesis by blast
qed

text \<open>
  Claim C4 as stated fails: on a new instance \<^verbatim>\<open>jacobian\<close> returns the matrix.
\<close>

theorem jacobian_before_fit_counterexample:
  "never_fitted (init None None 3)
   \<and> jacobian (init None None 3) line_a source survey
        = (Inr \<lparr>buf = 10, shape = [2, 1]\<rparr>, survey @ [[1 / 4, 1 / 5]])"
  using jacobian_line_a never_fitted.fresh by simp

section \<open>What the operations leave unchanged\<close>

lemma kept_refl: "kept n st st"
  by (simp add: kept_def)

lemma kept_trans: "kept n a b \<Longrightarrow> kept n b c \<Longrightarrow> kept n a c"
  by (simp add: kept_def)

lemma kept_update: "n \<le> b \<Longrightarrow> kept n st (st[b := x])"
  by (simp add: kept_def)

lemma setitem_kept: "n \<le> buf a \<Longrightarrow> kept n st (snd (setitem a i x st))"
  by (simp add: setitem_def kept_update kept_refl split: list.splits sum.splits)

lemma setitem2_kept: "n \<le> buf a \<Longrightarrow> kept n st (snd (setitem2 a ij x st))"
  by (simp add: setitem2_def kept_update kept_refl split: list.splits sum.splits)

lemma with_value_kept:
  assumes "\<And>x. kept n st (snd (f x st))"
  shows "kept n st (snd (with_value r f st))"
  using assms by (cases r) (simp_all add: with_value_def kept_refl)

lemma for_each_kept:
  assumes "\<And>i s. i \<in> set xs \<Longrightarrow> kept n s (snd (body i s))"
  shows "kept n st (snd (for_each xs body st))"
proof -
  have "kept n st (snd (for_each xs body st))"
    using assms kept_refl [of n st]
    by (intro for_each_snd_inv [where Q = "kept n st"]) (auto intro: kept_trans)
  then show ?thesis .
qed

lemma jacobian_numba_kept:
  assumes "n \<le> buf jac"
  shows "kept n st (snd (jacobian_numba c p jac st))"
proof -
  obtain east north vertical where c: "c = (east, north, vertical)" by (cases c)
  obtain pe pn pv where p: "p = (pe, pn, pv)" by (cases p)
  show ?thesis
    unfolding jacobian_numba_def c p prod.case
    by (intro for_each_kept with_value_kept setitem2_kept assms)
qed

lemma predict_numba_kept:
  assumes "n \<le> buf result"
  shows "kept n st (snd (predict_numba c p coeffs result st))"
proof -
  obtain east north vertical where c: "c = (east, north, vertical)" by (cases c)
  obtain pe pn pv where p: "p = (pe, pn, pv)" by (cases p)
  show ?thesis
    unfolding predict_numba_def c p prod.case
    by (intro for_each_kept with_value_kept setitem_kept assms)
qed

lemma nearest_step_kept:
  assumes "n \<le> buf distances"
  shows "kept n st (snd (nearest_step c distances i j st))"
proof (cases "i = j")
  case True
  then show ?thesis by (simp add: nearest_step_def kept_refl)
next
  case False
  have "kept n s (snd (if dist < cur then setitem distances (int i) dist s else (None, s)))"
    for dist cur s
    using assms by (simp add: setitem_kept kept_refl)
  with False show ?thesis
    unfolding nearest_step_def
    by (simp add: with_value_kept)
qed

lemma distance_to_nearest_point_kept:
  assumes "n \<le> buf distances"
  shows "kept n st (snd (distance_to_nearest_point c distances st))"
proof -
  obtain east north vertical where c: "c = (east, north, vertical)" by (cases c)
  have body: "kept n s (snd (case setitem distances (int i) d0 s of
              (Some e, st') \<Rightarrow> (Some e, st')
            | (None, st') \<Rightarrow> for_each [0..<size_arr east] (nearest_step c distances i) st'))"
    for i d0 s
  proof (cases "setitem distances (int i) d0 s")
    case (Pair r s')
    from setitem_kept [OF assms, of s "int i" d0] Pair have k1: "kept n s s'" by simp
    show ?thesis
    proof (cases r)
      case None
      have "kept n s' (snd (for_each [0..<size_arr east] (nearest_step c distances i) s'))"
        by (intro for_each_kept nearest_step_kept assms)
      with k1 Pair None show ?thesis by (auto intro: kept_trans)
    next
      case (Some e)
      with k1 Pair show ?thesis by simp
    qed
  qed
  show ?thesis
    unfolding distance_to_nearest_point_def c prod.case
    by (intro for_each_kept with_value_kept) (rule body [unfolded c])
qed

lemma extends_refl: "extends st st"
  by (simp add: extends_def)

lemma extends_trans:
  assumes "extends a b" "extends b c"
  shows "extends a c"
proof -
  from assms have le: "length a \<le> length b" "length b \<le> length c"
    and ab: "take (length a) b = a" and bc: "take (length b) c = b"
    by (simp_all add: extends_def)
  have "take (length a) (take (length b) c) = take (length a) c"
    using le(1) by (simp add: min_def)
  with ab bc have "take (length a) c = a" by simp
  with le show ?thesis by (simp add: extends_def)
qed

lemma extends_append: "extends st (st @ ys)"
  by (simp add: extends_def)

lemma extends_kept: "extends st s \<Longrightarrow> kept (length st) s s' \<Longrightarrow> extends st s'"
  by (simp add: extends_def kept_def)

lemma extends_nth:
  assumes "extends st st'" "b < length st"
  shows "st' ! b = st ! b"
proof -
  from assms(2) have "take (length st) st' ! b = st' ! b" by simp
  with assms(1) show ?thesis by (simp add: extends_def)
qed

lemma jacobian_snd:
  "snd (jacobian self c p st) =
     snd (jacobian_numba c p \<lparr>buf = length st, shape = [size_arr (fst c), size_arr (fst p)]\<rparr>
       (st @ [replicate (size_arr (fst c) * size_arr (fst p)) 0]))"
  by (simp add: jacobian_def np_zeros_def Let_def split: prod.splits option.splits)

lemma jacobian_extends: "extends st (snd (jacobian self c p st))"
proof -
  let ?z = "replicate (size_arr (fst c) * size_arr (fst p)) (0::real)"
  let ?jac = "\<lparr>buf = length st, shape = [size_arr (fst c), size_arr (fst p)]\<rparr>"
  have "kept (length st) (st @ [?z]) (snd (jacobian_numba c p ?jac (st @ [?z])))"
    by (simp add: jacobian_numba_kept)
  with extends_append [of st "[?z]"] show ?thesis
    unfolding jacobian_snd by (rule extends_kept)
qed

lemma jacobian_length: "length (snd (jacobian self c p st)) = Suc (length st)"
  unfolding jacobian_snd
  using jacobian_numba_kept [of "length st" "\<lparr>buf = length st, shape = [size_arr (fst c), size_arr (fst p)]\<rparr>"
      "st @ [replicate (size_arr (fst c) * size_arr (fst p)) 0]" c p]
  by (simp add: kept_def)

lemma predict_extends: "extends st (snd (predict self c st))"
proof (cases "check_is_fitted self")
  case (Inl e)
  then show ?thesis by (simp add: predict_def extends_refl)
next
  case coefs: (Inr coefs)
  show ?thesis
  proof (cases "np_broadcast_shape c")
    case (Inl e)
    with coefs show ?thesis by (simp add: predict_def extends_refl)
  next
    case shp: (Inr shp)
    let ?data = "\<lparr>buf = length st, shape = [prod_list shp]\<rparr>"
    let ?st1 = "st @ [replicate (prod_list shp) 0]"
    show ?thesis
    proof (cases "points_attr self")
      case None
      with coefs shp show ?thesis
        by (simp add: predict_def np_zeros_def Let_def extends_append)
    next
      case (Some pts)
      have k: "kept (length st) ?st1 (snd (predict_numba (ravel3 c) pts coefs ?data ?st1))"
        by (simp add: predict_numba_kept)
      have "snd (predict self c st) = snd (predict_numba (ravel3 c) pts coefs ?data ?st1)"
        using coefs shp Some
        by (simp add: predict_def np_zeros_def Let_def split: prod.splits option.splits)
      with extends_kept [OF extends_append k] show ?thesis by simp
    qed
  qed
qed

lemma copy_extends: "extends st (snd (copy a st))"
  by (simp add: copy_def extends_append)

lemma isub_scaled_kept: "n \<le> buf a \<Longrightarrow> kept n st (isub_scaled a k b st)"
  by (simp add: isub_scaled_def kept_update)

lemma default_points_extends: "extends st (snd (default_points k c st))"
proof -
  let ?nd = "\<lparr>buf = length st, shape = [size_arr (fst c)]\<rparr>"
  let ?st1 = "st @ [replicate (size_arr (fst c)) 0]"
  obtain r st2 where run: "distance_to_nearest_point c ?nd ?st1 = (r, st2)"
    by (cases "distance_to_nearest_point c ?nd ?st1")
  have "kept (length st) ?st1 st2"
    using distance_to_nearest_point_kept [of "length st" ?nd ?st1 c] run by simp
  with extends_append have e2: "extends st st2" by (rule extends_kept)
  show ?thesis
  proof (cases r)
    case (Some e)
    with run e2 show ?thesis
      by (simp add: default_points_def np_zeros_def Let_def)
  next
    case None
    let ?st3 = "st2 @ [st2 ! buf (ravel (atleast_1d (fst c)))]"
    let ?st4 = "?st3 @ [?st3 ! buf (ravel (atleast_1d (fst (snd c))))]"
    let ?st5 = "?st4 @ [?st4 ! buf (ravel (atleast_1d (snd (snd c))))]"
    let ?pv = "\<lparr>buf = length ?st4, shape = shape (ravel (atleast_1d (snd (snd c))))\<rparr>"
    have "extends st2 ?st3" "extends ?st3 ?st4" "extends ?st4 ?st5"
      by (rule extends_append)+
    with e2 have e5: "extends st ?st5"
      by (meson extends_trans)
    have "length st \<le> length st2" using e2 by (simp add: extends_def)
    then have "kept (length st) ?st5 (isub_scaled ?pv k ?nd ?st5)"
      by (intro isub_scaled_kept) simp
    with e5 have "extends st (isub_scaled ?pv k ?nd ?st5)" by (rule extends_kept)
    with run None show ?thesis
      by (simp add: default_points_def np_zeros_def copy_def Let_def)
  qed
qed

lemma fit_points_extends: "extends st (snd (fit_points self c st))"
  by (simp add: fit_points_def default_points_extends extends_refl split: option.splits)

lemma fit_solve_extends: "extends st (snd (snd (fit_solve ls self jac d w st)))"
  by (simp add: fit_solve_def extends_refl extends_append split: sum.splits)

lemma fit_extends:
  assumes "fit ls self c d w st = (out, self', st')"
  shows "extends st st'"
  using assms
proof (cases rule: fit_elim)
  case (points checked region e)
  from fit_points_extends [of st "self\<lparr>region_attr := Some region\<rparr>" "ravel3 (fst checked)"] points(3)
  show ?thesis by simp
next
  case (jac checked region pts st1 e)
  from fit_points_extends [of st "self\<lparr>region_attr := Some region\<rparr>" "ravel3 (fst checked)"] jac(3)
  have "extends st st1" by simp
  moreover have "extends st1 (snd (jacobian (self\<lparr>region_attr := Some region, points_attr := Some pts\<rparr>)
      (ravel3 (fst checked)) pts st1))"
    by (rule jacobian_extends)
  with jac(4) have "extends st1 st'" by simp
  ultimately show ?thesis by (rule extends_trans)
next
  case (solve checked region pts st1 jac st2)
  from fit_points_extends [of st "self\<lparr>region_attr := Some region\<rparr>" "ravel3 (fst checked)"] solve(3)
  have "extends st st1" by simp
  moreover have "extends st1 (snd (jacobian (self\<lparr>region_attr := Some region, points_attr := Some pts\<rparr>)
      (ravel3 (fst checked)) pts st1))"
    by (rule jacobian_extends)
  with solve(4) have "extends st1 st2" by simp
  moreover have "extends st2 (snd (snd (fit_solve ls (self\<lparr>region_attr := Some region, points_attr := Some pts\<rparr>)
      jac (fst (snd checked)) (snd (snd checked)) st2)))"
    by (rule fit_solve_extends)
  with solve(5) have "extends st2 st'" by simp
  ultimately show ?thesis using extends_trans by blast
qed (simp_all add: extends_refl)

section \<open>A failed fit\<close>

lemma check_fit_input_Inr: "check_fit_input c d w = Inr checked \<Longrightarrow> checked = (c, d, w)"
  by (auto simp add: check_fit_input_def split: prod.splits if_splits)

lemma fit_success:
  assumes "fit ls self c d w st = (None, self', st')"
  shows "\<exists>r pts st1 jac st2 cs.
           check_fit_input c d w = Inr (c, d, w)
         \<and> get_region st (fst c, fst (snd c)) = Inr r
         \<and> fit_points (self\<lparr>region_attr := Some r\<rparr>) (ravel3 c) st = (Inr pts, st1)
         \<and> jacobian (self\<lparr>region_attr := Some r, points_attr := Some pts\<rparr>) (ravel3 c) pts st1
             = (Inr jac, st2)
         \<and> ls (shape jac, elems st2 jac) (elems st2 d) (map_option (elems st2) w) (damping self)
             = Inr cs
         \<and> self' = self\<lparr>region_attr := Some r, points_attr := Some pts,
               coefs_attr := Some \<lparr>buf = length st2, shape = [length cs]\<rparr>\<rparr>
         \<and> st' = st2 @ [cs]"
  using assms
proof (cases rule: fit_elim)
  case (solve checked region pts st1 jac st2)
  from check_fit_input_Inr [OF solve(1)] have chk: "checked = (c, d, w)" .
  let ?self2 = "self\<lparr>region_attr := Some region, points_attr := Some pts\<rparr>"
  from solve(5) obtain cs where
    cs: "ls (shape jac, elems st2 jac) (elems st2 d) (map_option (elems st2) w) (damping self) = Inr cs"
      "self' = ?self2\<lparr>coefs_attr := Some \<lparr>buf = length st2, shape = [length cs]\<rparr>\<rparr>"
      "st' = st2 @ [cs]"
    by (auto simp add: fit_solve_def chk split: sum.splits)
  from solve(1-4) cs show ?thesis
    unfolding chk by (intro exI [of _ region] exI [of _ pts] exI [of _ st1] exI [of _ jac]
        exI [of _ st2] exI [of _ cs]) simp
qed simp_all

lemma fit_failed_solve:
  assumes "fit ls self c d w st = (Some e, self', st')"
    and "fit ls2 self c d w st = (None, self2, st2)"
  shows "\<exists>cs. self2 = self'\<lparr>coefs_attr := Some \<lparr>buf = length st', shape = [length cs]\<rparr>\<rparr>
           \<and> st2 = st' @ [cs] \<and> coefs_attr self' = coefs_attr self"
proof -
  from fit_success [OF assms(2)] obtain r pts st1 jac stj cs where
    ok: "check_fit_input c d w = Inr (c, d, w)"
      "get_region st (fst c, fst (snd c)) = Inr r"
      "fit_points (self\<lparr>region_attr := Some r\<rparr>) (ravel3 c) st = (Inr pts, st1)"
      "jacobian (self\<lparr>region_attr := Some r, points_attr := Some pts\<rparr>) (ravel3 c) pts st1
         = (Inr jac, stj)"
      "self2 = self\<lparr>region_attr := Some r, points_attr := Some pts,
          coefs_attr := Some \<lparr>buf = length stj, shape = [length cs]\<rparr>\<rparr>"
      "st2 = stj @ [cs]"
    by blast
  from assms(1) show ?thesis
  proof (cases rule: fit_elim)
    case (check e')
    with ok(1) show ?thesis by simp
  next
    case (region checked e')
    with ok(1,2) show ?thesis by simp
  next
    case (points checked region e')
    with ok(1,2,3) show ?thesis by simp
  next
    case (jac checked region pts' st1' e')
    with ok(1,2,3,4) show ?thesis by simp
  next
    case (solve checked region pts' st1' jac' stj')
    with ok(1,2,3,4) have same: "checked = (c, d, w)" "region = r" "pts' = pts" "st1' = st1"
        "jac' = jac" "stj' = stj"
      by simp_all
    from solve(5) have "self' = self\<lparr>region_attr := Some r, points_attr := Some pts\<rparr>" "st' = stj"
      unfolding same by (auto simp add: fit_solve_def split: sum.splits)
    with ok(5,6) show ?thesis by simp
  qed
qed

lemma extends_elems:
  assumes "extends st st'" "array_in st k"
  shows "array_in st' k \<and> elems st' k = elems st k"
proof -
  from assms(2) have b: "buf k < length st" by (simp add: array_in_def)
  from extends_nth [OF assms(1) b] have "st' ! buf k = st ! buf k" .
  moreover from assms(1) b have "buf k < length st'" by (simp add: extends_def)
  ultimately show ?thesis using assms(2) by (simp add: array_in_def elems_def)
qed

lemma fit_line_b:
  "fit (\<lambda>J d w l. Inr [2]) fitted_a line_b (vec 9 2) None survey_a
     = (None, fitted_a\<lparr>region_attr := Some (0, 0, 0, 8), coefs_attr := Some (vec 13 1)\<rparr>,
        survey_a @ [[1 / 4, 1 / 4], [2]])"
  by (simp add: fit_simps example_defs run_simps)

text \<open>
  Claim C2, amended. Whenever \<^verbatim>\<open>fit\<close> raises, and so when the least-squares solve
  fails, \<^verbatim>\<open>coefs_\<close> is left as it was before the call: it is the same array, and
  that array, like every array that was in the store before the call, holds the same
  elements. \<^verbatim>\<open>region_\<close> and \<^verbatim>\<open>points_\<close> are assigned before the solve: when the
  solve fails they hold what a successful solve on the same inputs leaves in them, and
  the store is that of the successful call without the array of the coefficients. When
  \<^verbatim>\<open>fit\<close> returns, \<^verbatim>\<open>region_\<close> is the region of the new coordinates,
  \<^verbatim>\<open>points_\<close> the new point sources and \<^verbatim>\<open>coefs_\<close> a new array that holds the
  result of the solver for the new Jacobian.
\<close>

theorem fit_failure_partial_update:
  assumes "fit ls self c d w st = (out, self', st')"
  shows "extends st st'
     \<and> (out \<noteq> None \<longrightarrow> coefs_attr self' = coefs_attr self
          \<and> (\<forall>k. coefs_attr self = Some k \<and> array_in st k
                \<longrightarrow> array_in st' k \<and> elems st' k = elems st k))
     \<and> (out = None \<longrightarrow>
          (\<exists>r pts st1 jac st2 cs.
              get_region st (fst c, fst (snd c)) = Inr r
            \<and> fit_points (self\<lparr>region_attr := Some r\<rparr>) (ravel3 c) st = (Inr pts, st1)
            \<and> jacobian (self\<lparr>region_attr := Some r, points_attr := Some pts\<rparr>) (ravel3 c) pts st1
                = (Inr jac, st2)
            \<and> ls (shape jac, elems st2 jac) (elems st2 d) (map_option (elems st2) w) (damping self)
                = Inr cs
            \<and> region_attr self' = Some r \<and> points_attr self' = Some pts
            \<and> coefs_attr self' = Some \<lparr>buf = length st2, shape = [length cs]\<rparr>
            \<and> st' = st2 @ [cs]))
     \<and> (\<forall>ls2 self2 st2. fit ls2 self c d w st = (None, self2, st2) \<longrightarrow>
            region_attr self' = region_attr self2 \<and> points_attr self' = points_attr self2
            \<and> (out \<noteq> None \<longrightarrow> (\<exists>cs. st2 = st' @ [cs])))"
proof (intro conjI allI impI)
  show ext: "extends st st'" using assms by (rule fit_extends)
  {
    assume "out \<noteq> None"
    then obtain e where "out = Some e" by auto
    with assms show "coefs_attr self' = coefs_attr self" by (simp add: fit_coefs_kept)
  }
  {
    fix k
    assume "coefs_attr self = Some k \<and> array_in st k"
    then have "array_in st k" by simp
    with ext have both: "array_in st' k \<and> elems st' k = elems st k" by (rule extends_elems)
    from both show "array_in st' k" by simp
    from both show "elems st' k = elems st k" by simp
  }
  {
    assume "out = None"
    with assms have "fit ls self c d w st = (None, self', st')" by simp
    from fit_success [OF this] obtain r pts st1 jac st2 cs where
      ok: "get_region st (fst c, fst (snd c)) = Inr r"
        "fit_points (self\<lparr>region_attr := Some r\<rparr>) (ravel3 c) st = (Inr pts, st1)"
        "jacobian (self\<lparr>region_attr := Some r, points_attr := Some pts\<rparr>) (ravel3 c) pts st1
           = (Inr jac, st2)"
        "ls (shape jac, elems st2 jac) (elems st2 d) (map_option (elems st2) w) (damping self)
           = Inr cs"
        "self' = self\<lparr>region_attr := Some r, points_attr := Some pts,
            coefs_attr := Some \<lparr>buf = length st2, shape = [length cs]\<rparr>\<rparr>"
        "st' = st2 @ [cs]"
      by blast
    from ok(5) have attrs: "region_attr self' = Some r" "points_attr self' = Some pts"
        "coefs_attr self' = Some \<lparr>buf = length st2, shape = [length cs]\<rparr>"
      by simp_all
    from ok(1-4) attrs ok(6)
    show "\<exists>r pts st1 jac st2 cs.
              get_region st (fst c, fst (snd c)) = Inr r
            \<and> fit_points (self\<lparr>region_attr := Some r\<rparr>) (ravel3 c) st = (Inr pts, st1)
            \<and> jacobian (self\<lparr>region_attr := Some r, points_attr := Some pts\<rparr>) (ravel3 c) pts st1
                = (Inr jac, st2)
            \<and> ls (shape jac, elems st2 jac) (elems st2 d) (map_option (elems st2) w) (damping self)
                = Inr cs
            \<and> region_attr self' = Some r \<and> points_attr self' = Some pts
            \<and> coefs_attr self' = Some \<lparr>buf = length st2, shape = [length cs]\<rparr>
            \<and> st' = st2 @ [cs]"
      by blast
  }
  {
    fix ls2 self2 st2
    assume second: "fit ls2 self c d w st = (None, self2, st2)"
    have two: "region_attr self' = region_attr self2 \<and> points_attr self' = points_attr self2"
    proof (cases out)
      case None
      with assms have first: "fit ls self c d w st = (None, self', st')" by simp
      from fit_success [OF first] fit_success [OF second] show ?thesis
        by (elim exE conjE) simp
    next
      case (Some e)
      with assms have first: "fit ls self c d w st = (Some e, self', st')" by simp
      from fit_failed_solve [OF first second] show ?thesis by auto
    qed
    from two show "region_attr self' = region_attr self2" by simp
    from two show "points_attr self' = points_attr self2" by simp
    {
      assume "out \<noteq> None"
      then obtain e where "out = Some e" by auto
      with assms have first: "fit ls self c d w st = (Some e, self', st')" by simp
      from fit_failed_solve [OF first second] show "\<exists>cs. st2 = st' @ [cs]" by blast
    }
  }
qed

theorem fit_failure_partial_update_witness:
  "fit (\<lambda>J d w l. Inl SingularSystem) fitted_a line_b (vec 9 2) None survey_a
     = (Some SingularSystem, fitted_a\<lparr>region_attr := Some (0, 0, 0, 8)\<rparr>,
        survey_a @ [[1 / 4, 1 / 4]])
   \<and> fit (\<lambda>J d w l. Inr [2]) fitted_a line_b (vec 9 2) None survey_a
     = (None, fitted_a\<lparr>region_attr := Some (0, 0, 0, 8), coefs_attr := Some (vec 13 1)\<rparr>,
        survey_a @ [[1 / 4, 1 / 4], [2]])
   \<and> coefs_attr fitted_a = Some (vec 11 1) \<and> array_in survey_a (vec 11 1)
   \<and> elems survey_a (vec 11 1) = [1]
   \<and> extends survey_a (survey_a @ [[1 / 4, 1 / 4]])
   \<and> coefs_attr (fitted_a\<lparr>region_attr := Some (0, 0, 0, 8)\<rparr>) = Some (vec 11 1)
   \<and> array_in (survey_a @ [[1 / 4, 1 / 4]]) (vec 11 1)
   \<and> elems (survey_a @ [[1 / 4, 1 / 4]]) (vec 11 1) = [1]
   \<and> region_attr (fitted_a\<lparr>region_attr := Some (0, 0, 0, 8)\<rparr>) = Some (0, 0, 0, 8)
   \<and> points_attr (fitted_a\<lparr>region_attr := Some (0, 0, 0, 8)\<rparr>) = Some source"
proof -
  have k: "coefs_attr fitted_a = Some (vec 11 1)" by (simp add: fitted_a_def)
  have a: "array_in survey_a (vec 11 1)"
    by (simp add: array_in_def survey_a_def survey_def vec_def size_arr_def)
  have e: "elems survey_a (vec 11 1) = [1]"
    by (simp add: elems_def survey_a_def survey_def vec_def)
  note upd = fit_failure_partial_update [OF fit_line_b_singular]
  from upd have ext: "extends survey_a (survey_a @ [[1 / 4, 1 / 4]])" by blast
  from upd k a have kept: "coefs_attr (fitted_a\<lparr>region_attr := Some (0, 0, 0, 8)\<rparr>) = Some (vec 11 1)"
      "array_in (survey_a @ [[1 / 4, 1 / 4]]) (vec 11 1)"
      "elems (survey_a @ [[1 / 4, 1 / 4]]) (vec 11 1) = elems survey_a (vec 11 1)"
    by auto
  from upd fit_line_b
  have new: "region_attr (fitted_a\<lparr>region_attr := Some (0, 0, 0, 8)\<rparr>)
        = region_attr (fitted_a\<lparr>region_attr := Some (0, 0, 0, 8), coefs_attr := Some (vec 13 1)\<rparr>)"
      "points_attr (fitted_a\<lparr>region_attr := Some (0, 0, 0, 8)\<rparr>)
        = points_attr (fitted_a\<lparr>region_attr := Some (0, 0, 0, 8), coefs_attr := Some (vec 13 1)\<rparr>)"
    by blast+
  from new have r: "region_attr (fitted_a\<lparr>region_attr := Some (0, 0, 0, 8)\<rparr>) = Some (0, 0, 0, 8)"
      "points_attr (fitted_a\<lparr>region_attr := Some (0, 0, 0, 8)\<rparr>) = Some source"
    by (simp_all add: fitted_a_def)
  from fit_line_b_singular fit_line_b k a e ext kept r show ?thesis
    by (simp only: simp_thms)
qed

text \<open>
  Claim C2 as stated fails: a fit of the second line on the fitted object, with a solver
  that fails, replaces \<^verbatim>\<open>region_\<close>.
\<close>

theorem fit_failure_counterexample:
  "fit (\<lambda>J d w l. Inr [1]) (init None (Some source) 3) line_a (vec 9 2) None survey
     = (None, fitted_a, survey_a)
   \<and> fit (\<lambda>J d w l. Inl SingularSystem) fitted_a line_b (vec 9 2) None survey_a
     = (Some SingularSystem, fitted_a\<lparr>region_attr := Some (0, 0, 0, 8)\<rparr>,
        survey_a @ [[1 / 4, 1 / 4]])
   \<and> region_attr (fitted_a\<lparr>region_attr := Some (0, 0, 0, 8)\<rparr>) \<noteq> region_attr fitted_a"
  using fit_line_a fit_line_b_singular by (simp add: fitted_a_def)

section \<open>The arrays of the caller\<close>

lemmas placement_simps = default_points_def distance_to_nearest_point_def nearest_step_def
  distance_at_def copy_def isub_scaled_def

lemma default_points_pair:
  "default_points (3 / 4) pair pair_store
     = (Inr (vec 5 2, vec 6 2, vec 7 2), pair_store @ [[4, 4], [0, 4], [0, 0], [- 3, - 3]])"
  by (simp add: placement_simps pair_def pair_store_def run_simps ravel_def atleast_1d_def)

lemma ravel3_vectors: "ravel3 (vec a n, vec b n, vec c n) = (vec a n, vec b n, vec c n)"
  by (simp add: ravel3_def ravel_def atleast_1d_def vec_def size_arr_def)

lemma length_pair_store: "length pair_store = 4"
  by (simp add: pair_store_def)

lemma check_pair: "check_fit_input pair (vec 3 2) None = Inr (pair, vec 3 2, None)"
  by (simp add: check_fit_input_def pair_def vec_def)

lemma region_pair: "get_region pair_store (fst pair, fst (snd pair)) = Inr (0, 4, 0, 0)"
  by (simp add: get_region_def pair_def pair_store_def vec_def elems_def)

lemma jacobian_pair:
  "jacobian self pair (vec 5 2, vec 6 2, vec 7 2)
       (pair_store @ [[4, 4], [0, 4], [0, 0], [- 3, - 3]])
     = (Inr \<lparr>buf = 8, shape = [2, 2]\<rparr>,
        pair_store @ [[4, 4], [0, 4], [0, 0], [- 3, - 3], [1 / 3, 1 / 5, 1 / 5, 1 / 3]])"
  by (simp add: jacobian_def jacobian_numba_def pair_def pair_store_def run_simps)

lemma fit_pair:
  "fit (\<lambda>J d w l. Inr [1, 1]) (init None None (3 / 4)) pair (vec 3 2) None pair_store
     = (None, fitted_pair, pair_store_fitted)"
  by (simp add: fit_def check_pair region_pair fit_points_def init_def
      ravel3_vectors [of 0 2 1 2, folded pair_def] default_points_pair jacobian_pair
      fit_solve_def fitted_pair_def pair_store_fitted_def vec_def [symmetric] length_pair_store numeral_2_eq_2 [symmetric])

lemma default_points_fresh:
  assumes "default_points k c st = (Inr (pe, pn, pv), st')"
  shows "buf pe = length st + 1 \<and> buf pn = length st + 2 \<and> buf pv = length st + 3"
proof -
  let ?nd = "\<lparr>buf = length st, shape = [size_arr (fst c)]\<rparr>"
  let ?st1 = "st @ [replicate (size_arr (fst c)) 0]"
  obtain r st2 where run: "distance_to_nearest_point c ?nd ?st1 = (r, st2)"
    by (cases "distance_to_nearest_point c ?nd ?st1")
  have "kept (length st) ?st1 st2"
    using distance_to_nearest_point_kept [of "length st" ?nd ?st1 c] run by simp
  then have len: "length st2 = length st + 1" by (simp add: kept_def)
  show ?thesis
  proof (cases r)
    case (Some e)
    with run assms show ?thesis
      by (simp add: default_points_def np_zeros_def Let_def)
  next
    case None
    with run assms len show ?thesis
      by (auto simp add: default_points_def np_zeros_def copy_def Let_def)
  qed
qed

text \<open>
  Claim C10. Fitting with the default point placement does not modify the caller's
  arrays: every array that is in the store before the call holds the same elements
  after it, and when \<^verbatim>\<open>fit\<close> returns, the three arrays of \<^verbatim>\<open>points_\<close> are on
  buffers that did not exist before the call, so the depth adjustment was applied to a
  fresh copy.
\<close>

theorem fit_keeps_inputs:
  assumes "points self = None" and "array_in st a"
  shows "elems (snd (snd (fit ls self c d w st))) a = elems st a
     \<and> (fst (fit ls self c d w st) = None \<longrightarrow>
          (\<exists>pe pn pv. points_attr (fst (snd (fit ls self c d w st))) = Some (pe, pn, pv)
             \<and> length st \<le> buf pe \<and> length st \<le> buf pn \<and> length st \<le> buf pv))"
proof -
  obtain out self' st' where run: "fit ls self c d w st = (out, self', st')"
    by (cases "fit ls self c d w st") auto
  from run have "extends st st'" by (rule fit_extends)
  with assms(2) have same: "elems st' a = elems st a"
    by (simp add: elems_def array_in_def extends_nth)
  have fresh: "\<exists>pe pn pv. points_attr self' = Some (pe, pn, pv)
      \<and> length st \<le> buf pe \<and> length st \<le> buf pn \<and> length st \<le> buf pv" if "out = None"
    using run
  proof (cases rule: fit_elim)
    case (solve checked region pts st1 jac st2)
    obtain pe pn pv where pts: "pts = (pe, pn, pv)" by (cases pts)
    from solve(3) assms(1) pts
    have "default_points (depth_factor self) (ravel3 (fst checked)) st = (Inr (pe, pn, pv), st1)"
      by (simp add: fit_points_def)
    from default_points_fresh [OF this] fit_solve_cases [OF solve(5)] pts
    show ?thesis by simp
  qed (use that in simp_all)
  from same fresh run show ?thesis by simp
qed

theorem fit_keeps_inputs_witness:
  "points (init None None (3 / 4)) = None
   \<and> array_in pair_store (vec 2 2)
   \<and> fit (\<lambda>J d w l. Inr [1, 1]) (init None None (3 / 4)) pair (vec 3 2) None pair_store
        = (None, fitted_pair, pair_store_fitted)
   \<and> elems pair_store_fitted (vec 2 2) = elems pair_store (vec 2 2)
   \<and> elems pair_store (vec 2 2) = [0, 0]
   \<and> elems pair_store_fitted (vec 7 2) = [- 3, - 3]"
proof -
  have h1: "points (init None None (3 / 4)) = None" by (simp add: init_def)
  have h2: "array_in pair_store (vec 2 2)"
    by (simp add: array_in_def pair_store_def vec_def size_arr_def)
  from fit_keeps_inputs [OF h1 h2, of "\<lambda>J d w l. Inr [1, 1]" pair "vec 3 2" None]
  have "elems pair_store_fitted (vec 2 2) = elems pair_store (vec 2 2)"
    by (simp add: fit_pair)
  moreover have "elems pair_store (vec 2 2) = [0, 0]"
    "elems pair_store_fitted (vec 7 2) = [- 3, - 3]"
    by (simp_all add: elems_def pair_store_def pair_store_fitted_def vec_def)
  ultimately show ?thesis using h1 h2 fit_pair by blast
qed

section \<open>The nearest distances and the default point sources\<close>























lemma default_points_lone:
  "default_points 3 lone single_store
     = (Inr (vec 5 1, vec 6 1, vec 7 1), single_store @ [[0], [2], [5], [7]])"
  by (simp add: placement_simps lone_def single_store_def run_simps ravel_def atleast_1d_def)

lemma jacobian_lone:
  "jacobian self lone (vec 5 1, vec 6 1, vec 7 1) (single_store @ [[0], [2], [5], [7]])
     = (Inl ZeroDivisionError, single_store @ [[0], [2], [5], [7], [0]])"
  by (simp add: jacobian_def jacobian_numba_def lone_def single_store_def run_simps)

lemma check_lone: "check_fit_input lone (vec 3 1) None = Inr (lone, vec 3 1, None)"
  by (simp add: check_fit_input_def lone_def vec_def)

lemma region_lone: "get_region single_store (fst lone, fst (snd lone)) = Inr (2, 2, 5, 5)"
  by (simp add: get_region_def lone_def single_store_def vec_def elems_def)

text \<open>
  Claim C3, where the code diverges from it. With a single observation point and
  \<^verbatim>\<open>points = None\<close> there is no fallback value: the running minimum starts as the
  distance from point 0 to point \<open>-1\<close>, which is point 0 itself, so the nearest distance
  is 0 (buffer 4), the point source coincides with the observation, and the Jacobian
  raises \<^verbatim>\<open>ZeroDivisionError\<close>.
\<close>

theorem fit_single_observation:
  "fit ls (init None None 3) lone (vec 3 1) None single_store
     = (Some ZeroDivisionError,
        (init None None 3)\<lparr>region_attr := Some (2, 2, 5, 5),
           points_attr := Some (vec 5 1, vec 6 1, vec 7 1)\<rparr>,
        single_store @ [[0], [2], [5], [7], [0]])
   \<and> point_at (single_store @ [[0], [2], [5], [7], [0]]) (vec 5 1, vec 6 1, vec 7 1) 0
       = point_at single_store lone 0"
proof -
  have "fit ls (init None None 3) lone (vec 3 1) None single_store
     = (Some ZeroDivisionError,
        (init None None 3)\<lparr>region_attr := Some (2, 2, 5, 5),
           points_attr := Some (vec 5 1, vec 6 1, vec 7 1)\<rparr>,
        single_store @ [[0], [2], [5], [7], [0]])"
    by (simp add: fit_def check_lone region_lone fit_points_def init_def
        ravel3_vectors [of 0 1 1 2, folded lone_def] default_points_lone jacobian_lone
        del: One_nat_def)
  moreover have "point_at (single_store @ [[0], [2], [5], [7], [0]]) (vec 5 1, vec 6 1, vec 7 1) 0
       = point_at single_store lone 0"
    by (simp add: point_at_def elems_def vec_def lone_def single_store_def)
  ultimately show ?thesis by simp
qed

end
